theory Spec2Isabelle
  imports Complex_Main "HOL-Library.Sublist"
begin

section \<open>Python values\<close>

text \<open>
  A Python \<open>str\<close> is a sequence of Unicode code points: \<open>len\<close>, slicing and
  \<open>startswith\<close> all count code points, so a string is modelled as the list of its
  code points. \<open>py\<close> turns an ASCII literal into such a list.
\<close>

type_synonym pystr = "nat list"

definition py :: "string \<Rightarrow> pystr" where
  "py s = map of_char s"

text \<open>Decimal rendering of a non-negative number, as an f-string renders an \<open>int\<close>.\<close>

fun digits :: "nat \<Rightarrow> pystr" where
  "digits n = (if n < 10 then [48 + n] else digits (n div 10) @ [48 + n mod 10])"

declare digits.simps [simp del]

text \<open>
  The bytes a code point takes on the wire. The device session encodes outgoing text as
  UTF-8 (the library's \<open>sendText\<close> does \<open>text.encode("utf-8")\<close>; the spec's
  outbound wire format is "plain UTF-8 text frames").
\<close>

definition utf8_len :: "nat \<Rightarrow> nat" where
  "utf8_len c = (if c < 128 then 1 else if c < 2048 then 2 else if c < 65536 then 3 else 4)"

definition utf8_length :: "pystr \<Rightarrow> nat" where
  "utf8_length s = sum_list (map utf8_len s)"

text \<open>\<open>str.lower\<close> restricted to ASCII letters, for concrete runs.\<close>

definition ascii_lower :: "pystr \<Rightarrow> pystr" where
  "ascii_lower s = map (\<lambda>c. if 65 \<le> c \<and> c \<le> 90 then c + 32 else c) s"

section \<open>Outbound link: \<open>MeshtasticTcpClient\<close>\<close>

text \<open>
  The device session object (\<open>meshtastic.tcp_interface.TCPInterface\<close>) is outside the
  repository. What the client observes of it is modelled as data:
  \<^item> \<open>myInfo\<close>: whether the attribute exists (\<open>hasattr\<close>) and whether the node-info
    query of \<open>connect\<close> (lines 81-114) runs through (\<open>Ready\<close>) or raises (\<open>Unready\<close>);
  \<^item> \<open>channels\<close>: \<open>localNode.channels\<close>, which may be absent, \<open>None\<close>, or a list of
    channels, each with a name or without one.
  The environment (\<open>world\<close>) fixes the outcome of the k-th construction of a session
  and of the k-th \<open>sendText\<close> call; \<open>str_lower\<close> is Python's \<open>str.lower\<close>.
  Every call of \<open>time.sleep\<close>, every session construction and every \<open>sendText\<close> is
  recorded in the state's \<open>trace\<close>, in order.
\<close>

datatype myinfo = Missing | Unready | Ready

datatype channels_attr = No_channels | Channels_None | Channels "pystr option list"

record iface =
  myInfo :: myinfo
  channels :: channels_attr

datatype open_outcome = Open_raises | Opened iface

datatype send_outcome = Sent | Transport_reset | Other_error

datatype event =
    Open_interface
  | Close_interface
  | Sleep real
  | SendText pystr "pystr option" "nat option"

record world =
  tcp_open :: "nat \<Rightarrow> open_outcome"
  send_text :: "nat \<Rightarrow> send_outcome"
  str_lower :: "pystr \<Rightarrow> pystr"

record tcp_state =
  interface :: "iface option"
  tcp_connected :: bool
  opens :: nat
  sends :: nat
  trace :: "event list"

definition emit :: "event list \<Rightarrow> tcp_state \<Rightarrow> tcp_state" where
  "emit es st = st\<lparr>trace := trace st @ es\<rparr>"

subsection \<open>\<open>connect\<close>\<close>

text \<open>
  \<open>wait_time = min(2.0 + (attempt * 0.5), 5.0)\<close> (line 73) is the pause after opening
  the session; \<open>current_delay = retry_delay * (2 ** attempt)\<close> (lines 126 and 138) is
  the pause before the next attempt. Delays are Python floats, modelled as reals (the
  products with powers of two are exact).
\<close>

definition wait_time :: "nat \<Rightarrow> real" where
  "wait_time attempt = min (2 + real attempt * 0.5) 5"

definition current_delay :: "real \<Rightarrow> nat \<Rightarrow> real" where
  "current_delay retry_delay attempt = retry_delay * 2 ^ attempt"

text \<open>
  The loop \<open>for attempt in range(max_retries + 1)\<close>. An attempt constructs the session;
  if the constructor raises, the outer handler (lines 134-143) sleeps \<open>current_delay\<close>
  and goes on, or returns \<open>False\<close> on the last attempt. Otherwise the client sleeps
  \<open>wait_time\<close> and queries the node info; if that raises, the inner handler (lines
  116-132) closes the session, sleeps \<open>current_delay\<close> and goes on, or returns
  \<open>False\<close> on the last attempt.
\<close>

function connect_loop :: "world \<Rightarrow> int \<Rightarrow> real \<Rightarrow> nat \<Rightarrow> tcp_state \<Rightarrow> bool \<times> tcp_state" where
  "connect_loop w max_retries retry_delay attempt st =
     (if \<not> int attempt < max_retries + 1 then (False, st)
      else
        (case tcp_open w (opens st) of
           Open_raises \<Rightarrow>
             (let st1 = emit [Open_interface] (st\<lparr>opens := Suc (opens st)\<rparr>) in
              if int attempt < max_retries
              then connect_loop w max_retries retry_delay (Suc attempt)
                     (emit [Sleep (current_delay retry_delay attempt)] st1)
              else (False, st1))
         | Opened i \<Rightarrow>
             (let st1 = emit [Open_interface, Sleep (wait_time attempt)]
                          (st\<lparr>interface := Some i, opens := Suc (opens st)\<rparr>) in
              if myInfo i = Ready then (True, st1\<lparr>tcp_connected := True\<rparr>)
              else if int attempt < max_retries
              then connect_loop w max_retries retry_delay (Suc attempt)
                     (emit [Close_interface, Sleep (current_delay retry_delay attempt)] st1)
              else (False, st1))))"
  by pat_completeness auto
termination
  by (relation "measure (\<lambda>(w, max_retries, retry_delay, attempt, st).
        nat (max_retries + 1 - int attempt))") auto

declare connect_loop.simps [simp del]

definition connect :: "world \<Rightarrow> tcp_state \<Rightarrow> int \<Rightarrow> real \<Rightarrow> bool \<times> tcp_state" where
  "connect w st max_retries retry_delay = connect_loop w max_retries retry_delay 0 st"

text \<open>
  \<open>_ensure_connected(max_retries=2)\<close>: reconnects only when there is no session object
  or it has no \<open>myInfo\<close> attribute; \<open>connect\<close> is called with its default
  \<open>retry_delay=2.0\<close>.
\<close>

definition ensure_connected :: "world \<Rightarrow> tcp_state \<Rightarrow> bool \<times> tcp_state" where
  "ensure_connected w st =
     (case interface st of
        None \<Rightarrow> connect w st 2 2
      | Some i \<Rightarrow> if myInfo i = Missing then connect w st 2 2 else (True, st))"

text \<open>
  The waits that the trace shows directly before a session is constructed, in order:
  the i-th entry is the wait inserted before attempt i+1.
\<close>

fun backoff_waits :: "event list \<Rightarrow> real list" where
  "backoff_waits (Sleep d # Open_interface # es) = d # backoff_waits (Open_interface # es)"
| "backoff_waits (e # es) = backoff_waits es"
| "backoff_waits [] = []"

text \<open>The events that a call appended to the trace.\<close>

definition new_events :: "tcp_state \<Rightarrow> tcp_state \<Rightarrow> event list" where
  "new_events st st' = drop (length (trace st)) (trace st')"

text \<open>An attempt succeeds when the session opens and the node-info query runs through.\<close>

definition attempt_succeeds :: "open_outcome \<Rightarrow> bool" where
  "attempt_succeeds out = (case out of Open_raises \<Rightarrow> False | Opened i \<Rightarrow> myInfo i = Ready)"

text \<open>
  The claim's reading of the backoff, following the spec's words: the wait before
  attempt i+1 is \<open>base_delay \<sqdot> 2^i\<close> capped at a ceiling.
\<close>

definition spec_capped_delay :: "real \<Rightarrow> real \<Rightarrow> nat \<Rightarrow> real" where
  "spec_capped_delay cap base_delay i = min (base_delay * 2 ^ i) cap"

subsection \<open>\<open>send_message\<close>\<close>

text \<open>\<open>range(i, stop, step)\<close> for a positive step.\<close>

function py_range :: "nat \<Rightarrow> nat \<Rightarrow> nat \<Rightarrow> nat list" where
  "py_range i stop step =
     (if step = 0 \<or> stop \<le> i then [] else i # py_range (i + step) stop step)"
  by pat_completeness auto
termination
  by (relation "measure (\<lambda>(i, stop, step). stop - i)") auto

declare py_range.simps [simp del]

definition max_chunk_size :: nat where
  "max_chunk_size = 190"

text \<open>Lines 256-263 (and 329-336): \<open>message[i:i+max_chunk_size]\<close> for each start.\<close>

definition split_chunks :: "pystr \<Rightarrow> pystr list" where
  "split_chunks message =
     (if length message \<le> max_chunk_size then [message]
      else map (\<lambda>i. take max_chunk_size (drop i message))
             (py_range 0 (length message) max_chunk_size))"

text \<open>The f-string \<open>"[{i+1}/{len(chunks)}] "\<close>; the argument is already \<open>i+1\<close>.\<close>

definition chunk_prefix :: "nat \<Rightarrow> nat \<Rightarrow> pystr" where
  "chunk_prefix k n = py ''['' @ digits k @ py ''/'' @ digits n @ py ''] ''"

text \<open>
  Line 267-269: a chunk gets the prefix when there is more than one chunk; \<open>i\<close> is
  the index that \<open>enumerate\<close> gives, \<open>n\<close> is \<open>len(chunks)\<close>.
\<close>

definition chunk_text :: "nat \<Rightarrow> nat \<Rightarrow> pystr \<Rightarrow> pystr" where
  "chunk_text n i chunk = (if n > 1 then chunk_prefix (i + 1) n @ chunk else chunk)"

text \<open>
  Line 272: \<open>is_direct = to_id is not None and to_id != "broadcast" and to_id != "^all"\<close>
  decides whether a chunk goes out with \<open>destinationId=to_id\<close>. The retry of the
  handler tests \<open>if to_id:\<close> instead (line 297).
\<close>

definition chunk_dest :: "pystr option \<Rightarrow> pystr option" where
  "chunk_dest to_id =
     (if to_id \<noteq> None \<and> to_id \<noteq> Some (py ''broadcast'') \<and> to_id \<noteq> Some (py ''^all'')
      then to_id else None)"

definition retry_dest :: "pystr option \<Rightarrow> pystr option" where
  "retry_dest to_id = (if to_id \<noteq> None \<and> to_id \<noteq> Some [] then to_id else None)"

text \<open>
  The loop \<open>for i, chunk in enumerate(chunks)\<close> of \<open>send_message\<close> (lines 266-287).
  The result is \<open>Sent\<close> when the loop ran through, and otherwise the kind of exception
  that the failing \<open>sendText\<close> raised.
\<close>

fun send_chunks :: "world \<Rightarrow> pystr option \<Rightarrow> nat \<Rightarrow> nat \<Rightarrow> pystr list \<Rightarrow> tcp_state
    \<Rightarrow> send_outcome \<times> tcp_state" where
  "send_chunks w to_id n i [] st = (Sent, st)"
| "send_chunks w to_id n i (chunk # rest) st =
     (let st1 = emit [SendText (chunk_text n i chunk) (chunk_dest to_id) None]
                  (st\<lparr>sends := Suc (sends st)\<rparr>)
      in case send_text w (sends st) of
           Sent \<Rightarrow> send_chunks w to_id n (Suc i) rest
                     (if n > 1 \<and> i < n - 1 then emit [Sleep 1] st1 else st1)
         | Transport_reset \<Rightarrow> (Transport_reset, st1)
         | Other_error \<Rightarrow> (Other_error, st1))"

text \<open>
  \<open>send_message(message, to_id)\<close>. The handler for \<open>BrokenPipeError\<close> and
  \<open>ConnectionResetError\<close> (lines 291-305) calls \<open>_ensure_connected\<close> and then
  \<open>sendText\<close> once, with the whole \<open>message\<close>; any exception of that call gives
  \<open>False\<close>. Any other exception of the loop gives \<open>False\<close> at once (lines 306-308).
\<close>

definition send_message :: "world \<Rightarrow> tcp_state \<Rightarrow> pystr \<Rightarrow> pystr option \<Rightarrow> bool \<times> tcp_state" where
  "send_message w st message to_id =
     (let (ok, st1) = ensure_connected w st in
      if \<not> ok then (False, st1)
      else
        (let chunks = split_chunks message in
         case send_chunks w to_id (length chunks) 0 chunks st1 of
           (Sent, st2) \<Rightarrow> (True, st2)
         | (Transport_reset, st2) \<Rightarrow>
             (let (ok2, st3) = ensure_connected w st2 in
              if ok2 then
                (send_text w (sends st3) = Sent,
                 emit [SendText message (retry_dest to_id) None] (st3\<lparr>sends := Suc (sends st3)\<rparr>))
              else (False, st3))
         | (Other_error, st2) \<Rightarrow> (False, st2)))"

text \<open>
  The \<open>sendText\<close> calls of a trace, in order: text, \<open>destinationId\<close>,
  \<open>channelIndex\<close>. The texts that the chunk loop hands to \<open>sendText\<close> for a message.
\<close>

fun sent_texts :: "event list \<Rightarrow> (pystr \<times> pystr option \<times> nat option) list" where
  "sent_texts [] = []"
| "sent_texts (SendText t d c # es) = (t, d, c) # sent_texts es"
| "sent_texts (e # es) = sent_texts es"

definition chunk_texts :: "pystr \<Rightarrow> pystr list" where
  "chunk_texts message =
     map (\<lambda>(i, chunk). chunk_text (length (split_chunks message)) i chunk)
       (enumerate 0 (split_chunks message))"

subsection \<open>\<open>send_to_channel\<close>\<close>

text \<open>The first index whose channel has a name that satisfies \<open>P\<close>.\<close>

definition find_channel :: "(pystr \<Rightarrow> bool) \<Rightarrow> pystr option list \<Rightarrow> nat option" where
  "find_channel P chs =
     (case filter (\<lambda>(idx, c). case c of None \<Rightarrow> False | Some name \<Rightarrow> P name) (enumerate 0 chs) of
        [] \<Rightarrow> None
      | (idx, c) # rest \<Rightarrow> Some idx)"

text \<open>
  Lines 339-370. \<open>Inl ()\<close> stands for the \<open>TypeError\<close> of \<open>enumerate(None)\<close> when
  \<open>localNode.channels\<close> is \<open>None\<close>; it is raised inside the outer \<open>try\<close>.
\<close>

definition channel_index :: "(pystr \<Rightarrow> pystr) \<Rightarrow> iface option \<Rightarrow> pystr \<Rightarrow> unit + nat" where
  "channel_index lower ifc channel_name =
     (case (case ifc of None \<Rightarrow> No_channels | Some i \<Rightarrow> channels i) of
        No_channels \<Rightarrow> Inr 2
      | Channels_None \<Rightarrow> Inl ()
      | Channels chs \<Rightarrow>
          (case find_channel (\<lambda>name. lower name = lower channel_name) chs of
             Some idx \<Rightarrow> Inr idx
           | None \<Rightarrow>
               (case find_channel (\<lambda>name. sublist (lower channel_name) (lower name)) chs of
                  Some idx \<Rightarrow> Inr idx
                | None \<Rightarrow> Inr 2)))"

text \<open>The loop of lines 373-395; chunks go out without a prefix.\<close>

fun send_channel_chunks :: "world \<Rightarrow> nat \<Rightarrow> pystr list \<Rightarrow> tcp_state \<Rightarrow> send_outcome \<times> tcp_state" where
  "send_channel_chunks w channel_num [] st = (Sent, st)"
| "send_channel_chunks w channel_num (chunk # rest) st =
     (let st1 = emit [SendText chunk None (Some channel_num)] (st\<lparr>sends := Suc (sends st)\<rparr>)
      in case send_text w (sends st) of
           Sent \<Rightarrow> send_channel_chunks w channel_num rest
                     (if rest \<noteq> [] then emit [Sleep 1] st1 else st1)
         | Transport_reset \<Rightarrow> (Transport_reset, st1)
         | Other_error \<Rightarrow> (Other_error, st1))"

text \<open>
  \<open>send_to_channel(message, channel_name)\<close> calls itself from two handlers (lines 389
  and 403) without any counter, so the recursion depth is not bounded by the code. The
  model takes fuel: the first argument bounds the nesting depth of calls, and \<open>None\<close>
  means that the fuel did not suffice.
\<close>

fun send_to_channel :: "nat \<Rightarrow> world \<Rightarrow> tcp_state \<Rightarrow> pystr \<Rightarrow> pystr \<Rightarrow> (bool \<times> tcp_state) option" where
  "send_to_channel 0 w st message channel_name = None"
| "send_to_channel (Suc fuel) w st message channel_name =
     (let (ok, st1) = ensure_connected w st in
      if \<not> ok then Some (False, st1)
      else
        (case channel_index (str_lower w) (interface st1) channel_name of
           Inl u \<Rightarrow>
             (let (ok2, st2) = ensure_connected w st1 in
              if ok2 then send_to_channel fuel w st2 message channel_name
              else Some (False, st2))
         | Inr channel_num \<Rightarrow>
             (case send_channel_chunks w channel_num (split_chunks message) st1 of
                (Sent, st2) \<Rightarrow> Some (True, st2)
              | (Transport_reset, st2) \<Rightarrow>
                  (let (ok2, st3) = ensure_connected w st2 in
                   if ok2 then send_to_channel fuel w st3 message channel_name
                   else Some (False, st3))
              | (Other_error, st2) \<Rightarrow> Some (False, st2))))"

section \<open>Inbound link: \<open>MeshtasticMqttClient\<close>\<close>

subsection \<open>JSON values and the Python operations on them\<close>

text \<open>
  What \<open>json.loads\<close> returns: \<open>None\<close>, a \<open>bool\<close>, an \<open>int\<close>, a \<open>str\<close>, a
  \<open>list\<close> or a \<open>dict\<close> with string keys (a \<open>dict\<close> is the association list read
  by \<open>map_of\<close>). Numbers with a fraction are left out of the model: no claim reads
  one. The fields of a message are such values, since the classifier copies them from
  the payload without checking their types.
\<close>

datatype json =
    JNull
  | JBool bool
  | JInt int
  | JStr pystr
  | JArr "json list"
  | JObj "(pystr \<times> json) list"

text \<open>Truthiness, as \<open>if x\<close>, \<open>not x\<close> and \<open>x or y\<close> read it.\<close>

fun truthy :: "json \<Rightarrow> bool" where
  "truthy JNull = False"
| "truthy (JBool b) = b"
| "truthy (JInt i) = (i \<noteq> 0)"
| "truthy (JStr s) = (s \<noteq> [])"
| "truthy (JArr xs) = (xs \<noteq> [])"
| "truthy (JObj kvs) = (kvs \<noteq> [])"

definition py_or :: "json \<Rightarrow> json \<Rightarrow> json" where
  "py_or a b = (if truthy a then a else b)"

text \<open>\<open>d.get(key, default)\<close> and \<open>isinstance(x, dict)\<close>.\<close>

definition dict_get :: "(pystr \<times> json) list \<Rightarrow> pystr \<Rightarrow> json \<Rightarrow> json" where
  "dict_get d key dflt = (case map_of d key of Some v \<Rightarrow> v | None \<Rightarrow> dflt)"

fun as_dict :: "json \<Rightarrow> (pystr \<times> json) list option" where
  "as_dict (JObj d) = Some d"
| "as_dict v = None"

text \<open>
  Python's \<open>==\<close>: a \<open>bool\<close> equals the \<open>int\<close> 0 or 1; values of different types
  are unequal otherwise. The source compares values of unknown type only with string
  literals, with an \<open>int\<close> literal and with \<open>my_node_id\<close>, which is \<open>None\<close> or a
  dictionary key (never a list or dict), so lists and dicts are compared as they are.
\<close>

fun py_eq :: "json \<Rightarrow> json \<Rightarrow> bool" where
  "py_eq (JBool a) (JInt i) = ((if a then 1 else 0) = i)"
| "py_eq (JInt i) (JBool a) = (i = (if a then 1 else 0))"
| "py_eq a b = (a = b)"

text \<open>
  \<open>str(x)\<close>. The rendering of lists and dicts is Python's \<open>repr\<close>, a parameter of
  the model.
\<close>

definition str_of_int :: "int \<Rightarrow> pystr" where
  "str_of_int i = (if i < 0 then py ''-'' @ digits (nat (- i)) else digits (nat i))"

fun py_str :: "(json \<Rightarrow> pystr) \<Rightarrow> json \<Rightarrow> pystr" where
  "py_str repr (JStr s) = s"
| "py_str repr (JInt i) = str_of_int i"
| "py_str repr JNull = py ''None''"
| "py_str repr (JBool b) = (if b then py ''True'' else py ''False'')"
| "py_str repr v = repr v"

text \<open>
  \<open>x[:50]\<close>, which the log lines evaluate: a \<open>str\<close> or a \<open>list\<close> can be sliced,
  anything else raises. A \<open>dict\<close> key must be hashable.
\<close>

fun sliceable :: "json \<Rightarrow> bool" where
  "sliceable (JStr s) = True"
| "sliceable (JArr xs) = True"
| "sliceable v = False"

fun hashable :: "json \<Rightarrow> bool" where
  "hashable (JArr xs) = False"
| "hashable (JObj kvs) = False"
| "hashable v = True"

text \<open>\<open>s.split(sep)\<close> for a separator of one character, and \<open>s.rstrip('/')\<close>.\<close>

fun split_on :: "nat \<Rightarrow> pystr \<Rightarrow> pystr list" where
  "split_on sep [] = [[]]"
| "split_on sep (c # cs) =
     (if c = sep then [] # split_on sep cs
      else (case split_on sep cs of
              [] \<Rightarrow> [[c]]
            | p # ps \<Rightarrow> (c # p) # ps))"

definition rstrip_slash :: "pystr \<Rightarrow> pystr" where
  "rstrip_slash s = rev (dropWhile (\<lambda>c. c = 47) (rev s))"

datatype py_error = AttributeError | TypeError

subsection \<open>Configuration, messages and state\<close>

text \<open>
  The constructor arguments that the bridge hands to both clients. A message is the
  dict built in \<open>_on_message\<close>; \<open>sender\<close> (a copy of \<open>from_id\<close>), \<open>timestamp\<close>,
  \<open>channel\<close> and \<open>packet_id\<close> are left out, no branch reads them.
\<close>

record config =
  use_llm_channel :: bool
  llm_channel :: "pystr option"
  llm_response_channel :: "pystr option"
  private_mode :: bool
  send_startup_message :: bool

record message =
  msg_text :: json
  msg_from_id :: json
  msg_to_id :: json
  msg_is_direct :: bool
  msg_is_llm_channel :: bool

record mqtt_state =
  my_node_id :: json
  nodes :: "(json \<times> json) list"
  message_queue :: "message list"
  callback_set :: bool

text \<open>
  What \<open>_on_message\<close> does with an event: nothing, a synchronous call of
  \<open>_process_message\<close>, a \<open>put\<close> on the queue, or an update of the node registry.
\<close>

datatype dispatch = Dropped | Process message | Enqueue message | Node_info

subsection \<open>\<open>_on_message\<close>\<close>

text \<open>The literal of line 312 (and of line 159): U+1F4E2 and the words after it.\<close>

definition startup_marker :: pystr where
  "startup_marker = 128226 # py '' LLM Agent is now online''"

text \<open>
  Line 159: the banner that the inbound client sends from \<open>_on_connect\<close> when its
  own \<open>send_startup_message\<close> is set.
\<close>

definition inbound_startup_message :: pystr where
  "inbound_startup_message = 128226 # py '' LLM Agent is now online''"

text \<open>Lines 185-189.\<close>

definition is_llm_topic :: "config \<Rightarrow> pystr \<Rightarrow> bool" where
  "is_llm_topic cfg topic =
     (use_llm_channel cfg \<and>
      (case llm_channel cfg of
         None \<Rightarrow> False
       | Some ch \<Rightarrow> ch \<noteq> [] \<and> (prefix (rstrip_slash ch) topic \<or> prefix ch topic)))"

text \<open>Lines 278-286 and 296-302: the sender named by the last part of the topic.\<close>

definition topic_sender :: "pystr \<Rightarrow> json" where
  "topic_sender topic =
     (let last_part = last (split_on 47 topic)
      in if prefix (py ''!'') last_part then JStr last_part else JStr (py ''unknown''))"

text \<open>
  Lines 306-329, the tail shared by the cases 2 to 5 and by the raw-text fallback: drop
  an empty text, drop a text that starts with the marker, hand everything else to
  \<open>_process_message\<close> as a direct message. \<open>text.startswith\<close> exists for a \<open>str\<close>
  only.
\<close>

definition llm_tail :: "json \<Rightarrow> json \<Rightarrow> json \<Rightarrow> py_error + dispatch" where
  "llm_tail text from_id to_id =
     (if \<not> truthy text then Inr Dropped
      else
        (case text of
           JStr s \<Rightarrow>
             if prefix startup_marker s then Inr Dropped
             else Inr (Process \<lparr>msg_text = text, msg_from_id = from_id,
                         msg_to_id = py_or to_id (JStr (py ''broadcast'')),
                         msg_is_direct = True, msg_is_llm_channel = True\<rparr>)
         | _ \<Rightarrow> Inl AttributeError))"

text \<open>The two \<open>for key in [...]\<close> loops of case 5 (lines 261-264 and 271-274).\<close>

fun first_str_field :: "(pystr \<times> json) list \<Rightarrow> pystr list \<Rightarrow> json" where
  "first_str_field d [] = JNull"
| "first_str_field d (key # keys) =
     (case map_of d key of
        Some (JStr s) \<Rightarrow> JStr s
      | _ \<Rightarrow> first_str_field d keys)"

fun first_field_str :: "(json \<Rightarrow> pystr) \<Rightarrow> (pystr \<times> json) list \<Rightarrow> pystr list \<Rightarrow> json" where
  "first_field_str repr d [] = JNull"
| "first_field_str repr d (key # keys) =
     (case map_of d key of
        Some v \<Rightarrow> JStr (py_str repr v)
      | None \<Rightarrow> first_field_str repr d keys)"

text \<open>
  Case 1 (lines 216-235) applies when \<open>type\<close> is \<open>"text"\<close> and \<open>payload\<close> is a
  dict; \<open>native_to\<close> is its \<open>to_id = str(data.get('to', 'broadcast'))\<close>.
\<close>

definition native_text_shape :: "(pystr \<times> json) list \<Rightarrow> bool" where
  "native_text_shape d =
     (py_eq (dict_get d (py ''type'') (JStr [])) (JStr (py ''text''))
      \<and> as_dict (dict_get d (py ''payload'') JNull) \<noteq> None)"

definition native_to :: "(json \<Rightarrow> pystr) \<Rightarrow> (pystr \<times> json) list \<Rightarrow> json" where
  "native_to repr d = JStr (py_str repr (dict_get d (py ''to'') (JStr (py ''broadcast''))))"

text \<open>
  A payload of the case-1 shape whose \<open>to\<close> is absent or renders as
  \<open>"broadcast"\<close>.
\<close>

definition native_broadcast :: "(json \<Rightarrow> pystr) \<Rightarrow> json option \<Rightarrow> bool" where
  "native_broadcast repr parsed =
     (case parsed of
        None \<Rightarrow> False
      | Some data \<Rightarrow>
          (case as_dict data of
             None \<Rightarrow> False
           | Some d \<Rightarrow> native_text_shape d \<and> native_to repr d = JStr (py ''broadcast'')))"

text \<open>
  Lines 204-288 for a payload that parsed to \<open>data\<close>. \<open>data.get\<close> exists for a dict
  only. Each of the cases 1 to 4 logs \<open>text[:50]\<close>, which raises for a text that cannot
  be sliced; every exception but \<open>JSONDecodeError\<close> ends the handling of the event
  (line 331). Case 1 builds its message and calls \<open>_process_message\<close> itself, then
  returns.
\<close>

definition llm_json :: "(json \<Rightarrow> pystr) \<Rightarrow> pystr \<Rightarrow> pystr \<Rightarrow> json \<Rightarrow> py_error + dispatch" where
  "llm_json repr topic payload data =
     (case as_dict data of
        None \<Rightarrow> Inl AttributeError
      | Some d \<Rightarrow>
          (let message_type = dict_get d (py ''type'') (JStr []);
               pl = as_dict (dict_get d (py ''payload'') JNull)
           in
             if native_text_shape d then
               (let text = dict_get (the pl) (py ''text'') (JStr []);
                    from_id = py_or (dict_get d (py ''sender'') JNull)
                                (JStr (py_str repr (dict_get d (py ''from'') (JStr []))));
                    to_id = native_to repr d
                in if \<not> sliceable text then Inl TypeError
                   else if truthy text then
                     Inr (Process \<lparr>msg_text = text, msg_from_id = from_id, msg_to_id = to_id,
                            msg_is_direct = (\<not> py_eq to_id (JStr (py ''broadcast''))
                                             \<and> \<not> py_eq to_id (JInt 4294967295)),
                            msg_is_llm_channel = True\<rparr>)
                   else Inr Dropped)
             else if py_eq message_type (JStr (py ''sendtext'')) \<and> pl \<noteq> None then
               (let text = dict_get (the pl) (py ''text'') (JStr []);
                    from_id = py_or (dict_get (the pl) (py ''from_id'') JNull)
                                (JStr (py_str repr (dict_get d (py ''from'') (JStr []))));
                    to_id = dict_get (the pl) (py ''to_id'') JNull
                in if \<not> sliceable text then Inl TypeError else llm_tail text from_id to_id)
             else if pl \<noteq> None \<and> map_of (the pl) (py ''text'') \<noteq> None then
               (let text = dict_get (the pl) (py ''text'') JNull;
                    from_id = py_or (dict_get d (py ''sender'') JNull)
                                (JStr (py_str repr (dict_get d (py ''from'') (JStr []))));
                    to_id = JStr (py_str repr (dict_get d (py ''to'') (JStr (py ''broadcast''))))
                in if \<not> sliceable text then Inl TypeError else llm_tail text from_id to_id)
             else if map_of d (py ''text'') \<noteq> None then
               (let text = dict_get d (py ''text'') (JStr []);
                    from_id = py_or (dict_get d (py ''from_id'') JNull)
                                (dict_get d (py ''sender'') (JStr (py ''unknown'')));
                    to_id = py_or (dict_get d (py ''to_id'') JNull)
                              (dict_get d (py ''to'') (JStr (py ''broadcast'')))
                in if \<not> sliceable text then Inl TypeError else llm_tail text from_id to_id)
             else
               (let found = first_str_field d [py ''text'', py ''message'', py ''content'', py ''body''];
                    text = (if \<not> truthy found then JStr payload else found);
                    sender = first_field_str repr d
                               [py ''from'', py ''from_id'', py ''sender'', py ''user'', py ''userId''];
                    from_id = (if \<not> truthy sender then topic_sender topic else sender)
                in llm_tail text from_id JNull)))"

text \<open>
  \<open>_on_message\<close> for a decoded payload; \<open>parsed\<close> is the outcome of
  \<open>json.loads(payload)\<close>, \<open>None\<close> for a \<open>JSONDecodeError\<close>. The regular branch
  tests the topic against the literal \<open>"msh/+/rx"\<close>, the node-info branch against
  \<open>"msh/+/nodeinfo"\<close>. A node-info event whose \<open>longName\<close> is \<open>"llm_agent"\<close>
  records its \<open>num\<close> as \<open>my_node_id\<close> (lines 398-401); storing the node raises for an
  id that is not hashable.
\<close>

definition on_message :: "config \<Rightarrow> (json \<Rightarrow> pystr) \<Rightarrow> mqtt_state \<Rightarrow> pystr \<Rightarrow> pystr \<Rightarrow> json option
    \<Rightarrow> dispatch \<times> mqtt_state" where
  "on_message cfg repr st topic payload parsed =
     (if is_llm_topic cfg topic then
        (case (case parsed of
                 None \<Rightarrow> llm_tail (JStr payload) (topic_sender topic) JNull
               | Some data \<Rightarrow> llm_json repr topic payload data) of
           Inl e \<Rightarrow> (Dropped, st)
         | Inr d \<Rightarrow> (d, st))
      else if prefix (py ''msh/+/rx'') topic then
        (case parsed of
           None \<Rightarrow> (Dropped, st)
         | Some data \<Rightarrow>
             (case as_dict data of
                None \<Rightarrow> (Dropped, st)
              | Some d \<Rightarrow>
                  (let from_node_id = dict_get d (py ''fromId'') (JStr (py ''unknown''));
                       to_node_id = dict_get d (py ''toId'') (JStr (py ''broadcast''));
                       text = dict_get d (py ''text'') (JStr []);
                       m = \<lparr>msg_text = text, msg_from_id = from_node_id, msg_to_id = to_node_id,
                            msg_is_direct = (\<not> py_eq to_node_id (JStr (py ''broadcast''))),
                            msg_is_llm_channel = False\<rparr>
                   in if py_eq from_node_id (my_node_id st) then (Dropped, st)
                      else (Enqueue m, st\<lparr>message_queue := message_queue st @ [m]\<rparr>))))
      else if prefix (py ''msh/+/nodeinfo'') topic then
        (case parsed of
           None \<Rightarrow> (Dropped, st)
         | Some data \<Rightarrow>
             (case as_dict data of
                None \<Rightarrow> (Dropped, st)
              | Some d \<Rightarrow>
                  (let node_id = dict_get d (py ''num'') (JStr (py ''unknown''))
                   in case as_dict (dict_get d (py ''user'') (JObj [])) of
                        None \<Rightarrow> (Dropped, st)
                      | Some u \<Rightarrow>
                          (let node_name = dict_get u (py ''longName'') (JStr (py ''unknown''))
                           in if \<not> hashable node_id then (Dropped, st)
                              else
                                (let st1 = st\<lparr>nodes := (node_id, node_name) # nodes st\<rparr>
                                 in (Node_info,
                                     if py_eq node_name (JStr (py ''llm_agent''))
                                     then st1\<lparr>my_node_id := node_id\<rparr> else st1))))))
      else (Dropped, st))"

subsection \<open>\<open>_process_message\<close>\<close>

text \<open>
  Lines 412-446, up to the call of the registered callback: the result is the message
  that the callback receives, or \<open>None\<close> when the callback is not called. The log line
  424 slices the text; an exception ends the processing (line 497). This is the only
  place where the client calls the callback, for messages of both origins.
\<close>

definition process_message :: "mqtt_state \<Rightarrow> message \<Rightarrow> message option" where
  "process_message st m =
     (if \<not> sliceable (msg_text m) then None
      else if \<not> truthy (msg_text m) then None
      else if py_eq (msg_from_id m) (my_node_id st)
              \<or> py_eq (msg_from_id m) (JStr (py ''llm_agent'')) then None
      else if callback_set st then Some m
      else None)"

section \<open>Router: \<open>MeshtasticHybridClient\<close>\<close>

text \<open>
  The bridge sees its two links through the results of their calls, which the
  environment fixes: the results of the two \<open>connect\<close> calls, and for each attempt of
  the reply loop the results of \<open>tcp_client.send_message\<close> and
  \<open>tcp_client.send_to_channel\<close>, which return a \<open>bool\<close> (\<open>Raises\<close> stands for an
  exception reaching the bridge's handler). \<open>send_to_channel\<close> retries by calling
  itself and need not return: its result is \<open>None\<close> then, as in the model of the
  outbound link. Every call to a link and every sleep is recorded in \<open>calls\<close>, in
  order.
\<close>

datatype call_result = Returns bool | Raises

datatype router_event =
    Mqtt_connect
  | Tcp_connect int
  | Set_mqtt_callback
  | Tcp_send_message pystr "json option"
  | Tcp_send_to_channel pystr pystr
  | Publish_to_llm_response_channel json
  | Send_to_llm_channel json
  | Router_sleep real

record router_env =
  mqtt_connect_result :: bool
  tcp_connect_result :: bool
  send_message_result :: "nat \<Rightarrow> call_result"
  send_to_channel_result :: "nat \<Rightarrow> call_result option"
  tcp_my_node_id :: json

record router_state =
  bridge_connected :: bool
  calls :: "router_event list"

definition called :: "router_event list \<Rightarrow> router_state \<Rightarrow> router_state" where
  "called es st = st\<lparr>calls := calls st @ es\<rparr>"

subsection \<open>The startup banner\<close>

text \<open>
  \<open>send_startup_messages\<close> (lines 323-351). The literal of line 327 begins with the four
  characters U+00F0 U+0178 U+201C U+00A2 in the source file.
\<close>

definition banner_symbol :: pystr where
  "banner_symbol = [240, 376, 8220, 162]"

definition startup_message :: "config \<Rightarrow> pystr" where
  "startup_message cfg =
     banner_symbol @ py '' LLM Agent is now online and ready for conversations!''
     @ (if private_mode cfg then py '' (Private mode: only responding to direct messages)'' else [])
     @ (if use_llm_channel cfg
        then py '' (Listening on channel: ''
             @ (case llm_channel cfg of None \<Rightarrow> py ''None'' | Some ch \<Rightarrow> ch) @ py '')''
        else [])"

definition send_startup_messages :: "config \<Rightarrow> router_state \<Rightarrow> router_state" where
  "send_startup_messages cfg st =
     called ([Tcp_send_message (startup_message cfg) None]
             @ (if use_llm_channel cfg
                then [Send_to_llm_channel
                        (JObj [(py ''from'', JInt 1234567890), (py ''type'', JStr (py ''sendtext'')),
                               (py ''payload'',
                                JObj [(py ''text'', JStr (startup_message cfg)),
                                      (py ''from_id'', JStr (py ''llm_agent'')),
                                      (py ''to_id'', JStr (py ''broadcast''))])])]
                else [])) st"

subsection \<open>\<open>connect\<close>\<close>

text \<open>Lines 85-130.\<close>

definition hybrid_connect :: "config \<Rightarrow> router_env \<Rightarrow> router_state \<Rightarrow> bool \<times> router_state" where
  "hybrid_connect cfg env st =
     (let mqtt_connected = mqtt_connect_result env;
          st1 = called [Mqtt_connect] st
      in if \<not> mqtt_connected then (False, st1)
         else
           (let tcp_connected = tcp_connect_result env;
                st2 = (called [Tcp_connect 4] st1)\<lparr>bridge_connected := (mqtt_connected \<and> tcp_connected)\<rparr>;
                st3 = (if mqtt_connected \<and> \<not> tcp_connected
                       then st2\<lparr>bridge_connected := True\<rparr> else st2);
                st4 = called [Set_mqtt_callback] st3;
                st5 = (if send_startup_message cfg then send_startup_messages cfg st4 else st4)
            in (bridge_connected st5, st5)))"

subsection \<open>The reply policy: \<open>_send_response_via_tcp\<close>\<close>

text \<open>Lines 236-244: the last non-empty part of the response topic, or \<open>"llmres"\<close>.\<close>

definition response_channel_name :: "pystr \<Rightarrow> pystr" where
  "response_channel_name ch =
     (let non_empty_parts = filter (\<lambda>part. part \<noteq> []) (split_on 47 ch)
      in if non_empty_parts \<noteq> [] then last non_empty_parts else py ''llmres'')"

text \<open>
  \<open>_send_response_via_mqtt_llm_channel\<close> (lines 277-305): the bridge's one call of the
  inbound link's \<open>publish_to_llm_response_channel\<close>. The client has no attribute
  \<open>my_node_id_num\<close>, so \<open>from\<close> is the placeholder.
\<close>

definition response_data :: "config \<Rightarrow> router_env \<Rightarrow> pystr \<Rightarrow> json \<Rightarrow> json" where
  "response_data cfg env response from_id =
     JObj [(py ''from'', JInt 1234567890), (py ''type'', JStr (py ''sendtext'')),
           (py ''payload'',
            JObj [(py ''text'', JStr response),
                  (py ''from_id'', tcp_my_node_id env),
                  (py ''to_id'', if private_mode cfg then from_id else JStr (py ''broadcast'')),
                  (py ''is_response'', JBool True)])]"

definition send_response_via_mqtt_llm_channel ::
    "config \<Rightarrow> router_env \<Rightarrow> pystr \<Rightarrow> json \<Rightarrow> router_state \<Rightarrow> router_state" where
  "send_response_via_mqtt_llm_channel cfg env response from_id st =
     called [Publish_to_llm_response_channel (response_data cfg env response from_id)] st"

text \<open>
  One pass through the body of the loop \<open>for attempt in range(max_retries + 1)\<close> with
  \<open>max_retries = 2\<close> (lines 213-275) goes on to the next attempt, ends the call, or
  stays in a \<open>send_to_channel\<close> that does not return.
\<close>

datatype 'a step = Continue 'a | Done 'a | Blocked 'a

text \<open>
  The handler of lines 266-275: sleep and go on while attempts remain; on the last
  attempt hand a dedicated-channel reply to the inbound link.
\<close>

definition handle_exception ::
    "config \<Rightarrow> router_env \<Rightarrow> pystr \<Rightarrow> json \<Rightarrow> bool \<Rightarrow> nat \<Rightarrow> router_state \<Rightarrow> router_state step" where
  "handle_exception cfg env response from_id is_llm attempt st =
     (if attempt < 2 then Continue (called [Router_sleep 2] st)
      else if is_llm \<and> use_llm_channel cfg
      then Done (send_response_via_mqtt_llm_channel cfg env response from_id st)
      else Done st)"

text \<open>
  Lines 215-264. A failed \<open>send_message\<close> is repeated while attempts remain. After
  the send, a reply to a message of the dedicated channel goes to \<open>send_to_channel\<close>
  when a response channel is configured, and to the inbound link when that call returns
  \<open>False\<close>.
\<close>

definition attempt_body ::
    "config \<Rightarrow> router_env \<Rightarrow> pystr \<Rightarrow> json \<Rightarrow> bool \<Rightarrow> bool \<Rightarrow> nat \<Rightarrow> router_state
     \<Rightarrow> router_state step" where
  "attempt_body cfg env response from_id is_direct is_llm attempt st =
     (let st1 = called [Tcp_send_message response
                          (if private_mode cfg \<or> is_direct then Some from_id else None)] st
      in case send_message_result env attempt of
           Raises \<Rightarrow> handle_exception cfg env response from_id is_llm attempt st1
         | Returns success \<Rightarrow>
             if \<not> success \<and> attempt < 2 then Continue st1
             else if is_llm \<and> use_llm_channel cfg then
               (case llm_response_channel cfg of
                  None \<Rightarrow> Done st1
                | Some ch \<Rightarrow>
                    if ch = [] then Done st1
                    else
                      (let st2 = called [Tcp_send_to_channel response
                                           (response_channel_name ch)] st1
                       in case send_to_channel_result env attempt of
                            None \<Rightarrow> Blocked st2
                          | Some Raises \<Rightarrow>
                              handle_exception cfg env response from_id is_llm attempt st2
                          | Some (Returns channel_success) \<Rightarrow>
                              if channel_success then Done st2
                              else Done (send_response_via_mqtt_llm_channel cfg env response
                                           from_id st2)))
             else Done st1)"

function send_response_loop ::
    "config \<Rightarrow> router_env \<Rightarrow> pystr \<Rightarrow> json \<Rightarrow> bool \<Rightarrow> bool \<Rightarrow> nat \<Rightarrow> router_state \<Rightarrow> router_state" where
  "send_response_loop cfg env response from_id is_direct is_llm attempt st =
     (if \<not> attempt < 3 then st
      else
        (case attempt_body cfg env response from_id is_direct is_llm attempt st of
           Continue st' \<Rightarrow>
             send_response_loop cfg env response from_id is_direct is_llm (Suc attempt) st'
         | Done st' \<Rightarrow> st'
         | Blocked st' \<Rightarrow> st'))"
  by pat_completeness auto
termination
  by (relation "measure (\<lambda>(cfg, env, response, from_id, is_direct, is_llm, attempt, st).
        3 - attempt)") auto

declare send_response_loop.simps [simp del]

definition send_response_via_tcp ::
    "config \<Rightarrow> router_env \<Rightarrow> pystr \<Rightarrow> json \<Rightarrow> bool \<Rightarrow> bool \<Rightarrow> router_state \<Rightarrow> router_state" where
  "send_response_via_tcp cfg env response from_id is_direct is_llm st =
     send_response_loop cfg env response from_id is_direct is_llm 0 st"

text \<open>
  \<open>_handle_mqtt_message\<close> (lines 147-193), the callback that the bridge registers with
  the inbound link. The responder returns a reply, returns \<open>None\<close>, or raises.
\<close>

datatype responder_result = Responder_raises | Reply "pystr option"

definition handle_mqtt_message ::
    "config \<Rightarrow> router_env \<Rightarrow> (message \<Rightarrow> responder_result) option \<Rightarrow> router_state \<Rightarrow> message
     \<Rightarrow> router_state" where
  "handle_mqtt_message cfg env message_callback st m =
     (case message_callback of
        None \<Rightarrow> st
      | Some responder \<Rightarrow>
          if \<not> sliceable (msg_text m) then st
          else
            (case responder m of
               Responder_raises \<Rightarrow> st
             | Reply None \<Rightarrow> st
             | Reply (Some response) \<Rightarrow>
                 if response = [] then st
                 else send_response_via_tcp cfg env response (msg_from_id m) (msg_is_direct m)
                        (msg_is_llm_channel m) st))"

text \<open>The calls that a bridge operation appended.\<close>

definition new_calls :: "router_state \<Rightarrow> router_state \<Rightarrow> router_event list" where
  "new_calls st st' = drop (length (calls st)) (calls st')"

text \<open>The inbound-link calls among the bridge's calls.\<close>

fun is_publish :: "router_event \<Rightarrow> bool" where
  "is_publish (Publish_to_llm_response_channel data) = True"
| "is_publish e = False"

section \<open>Concrete environments\<close>

text \<open>The client's state after \<open>__init__\<close>, and a device that refuses every session.\<close>

definition st_init :: tcp_state where
  "st_init = \<lparr>interface = None, tcp_connected = False, opens = 0, sends = 0, trace = []\<rparr>"

definition world_unreachable :: world where
  "world_unreachable =
     \<lparr>tcp_open = (\<lambda>k. Open_raises), send_text = (\<lambda>k. Other_error), str_lower = ascii_lower\<rparr>"

text \<open>
  A device that accepts every session and every text, with the channels of the spec's
  third scenario; and devices whose connection drops under the first two, or under
  all, \<open>sendText\<close> calls while the session object stays in place.
\<close>

definition live_iface :: iface where
  "live_iface = \<lparr>myInfo = Ready,
     channels = Channels [Some (py ''Primary''), None, Some (py ''LLM'')]\<rparr>"

definition world_ok :: world where
  "world_ok = \<lparr>tcp_open = (\<lambda>k. Opened live_iface), send_text = (\<lambda>k. Sent),
     str_lower = ascii_lower\<rparr>"

definition world_two_resets :: world where
  "world_two_resets = \<lparr>tcp_open = (\<lambda>k. Opened live_iface),
     send_text = (\<lambda>k. if k < 2 then Transport_reset else Sent), str_lower = ascii_lower\<rparr>"

definition world_always_reset :: world where
  "world_always_reset = \<lparr>tcp_open = (\<lambda>k. Opened live_iface),
     send_text = (\<lambda>k. Transport_reset), str_lower = ascii_lower\<rparr>"

definition world_second_reset :: world where
  "world_second_reset = \<lparr>tcp_open = (\<lambda>k. Opened live_iface),
     send_text = (\<lambda>k. if k = 1 then Transport_reset else Sent), str_lower = ascii_lower\<rparr>"

definition world_channels_none :: world where
  "world_channels_none =
     \<lparr>tcp_open = (\<lambda>k. Opened \<lparr>myInfo = Ready, channels = Channels_None\<rparr>),
      send_text = (\<lambda>k. Sent), str_lower = ascii_lower\<rparr>"

text \<open>
  The configuration of \<open>config.py\<close> with the dedicated channel in use; the inbound
  client with the bridge's callback registered; a rendering of lists and dicts for runs
  that never render one.
\<close>

definition cfg_llm :: config where
  "cfg_llm = \<lparr>use_llm_channel = True, llm_channel = Some (py ''msh/US/2/json/llm/''),
     llm_response_channel = Some (py ''msh/US/2/json/llmres/''), private_mode = False,
     send_startup_message = False\<rparr>"

definition mqtt_init :: mqtt_state where
  "mqtt_init = \<lparr>my_node_id = JNull, nodes = [], message_queue = [], callback_set = True\<rparr>"

definition repr_unused :: "json \<Rightarrow> pystr" where
  "repr_unused v = py ''?''"

text \<open>
  The payload of the spec's first scenario, and a native text message that carries the
  marker as its text, each with what \<open>json.loads\<close> makes of it.
\<close>

definition scenario1_payload :: pystr where
  \<open>scenario1_payload = py ''{"type":"text","payload":{"text":"hi"},"from":42}''\<close>

definition scenario1_data :: json where
  "scenario1_data = JObj [(py ''type'', JStr (py ''text'')),
     (py ''payload'', JObj [(py ''text'', JStr (py ''hi''))]), (py ''from'', JInt 42)]"

definition echo_payload :: pystr where
  \<open>echo_payload = py ''{"type":"text","payload":{"text":"'' @ startup_marker @ py ''"},"from":42}''\<close>

definition echo_data :: json where
  "echo_data = JObj [(py ''type'', JStr (py ''text'')),
     (py ''payload'', JObj [(py ''text'', JStr startup_marker)]), (py ''from'', JInt 42)]"

text \<open>
  The message that case 1 builds from that payload, and a responder that answers
  every message with \<open>"ok"\<close>.
\<close>

definition echo_message :: message where
  "echo_message = \<lparr>msg_text = JStr startup_marker, msg_from_id = JStr (py ''42''),
     msg_to_id = JStr (py ''broadcast''), msg_is_direct = False, msg_is_llm_channel = True\<rparr>"

definition responder_ok :: "message \<Rightarrow> responder_result" where
  "responder_ok m = Reply (Some (py ''ok''))"

text \<open>
  A node-info event that names the bridge (\<open>longName\<close> is \<open>"llm_agent"\<close>), and a
  message of node \<open>!a1b2\<close> on the dedicated channel with the message that
  \<open>_on_message\<close> builds from it.
\<close>

definition node_info_payload :: pystr where
  \<open>node_info_payload = py ''{"num":"!a1b2","user":{"longName":"llm_agent"}}''\<close>

definition node_info_data :: json where
  "node_info_data = JObj [(py ''num'', JStr (py ''!a1b2'')),
     (py ''user'', JObj [(py ''longName'', JStr (py ''llm_agent''))])]"

definition own_payload :: pystr where
  \<open>own_payload = py ''{"text":"hello","from_id":"!a1b2"}''\<close>

definition own_data :: json where
  "own_data = JObj [(py ''text'', JStr (py ''hello'')), (py ''from_id'', JStr (py ''!a1b2''))]"

definition own_message :: message where
  "own_message = \<lparr>msg_text = JStr (py ''hello''), msg_from_id = JStr (py ''!a1b2''),
     msg_to_id = JStr (py ''broadcast''), msg_is_direct = True, msg_is_llm_channel = True\<rparr>"

text \<open>
  Bridges: the default constructor argument \<open>llm_response_channel=None\<close>; the startup
  banner switched on. Link results: every call succeeds; the direct send succeeds at
  the second attempt and the channel send fails; every direct send raises; the channel
  send does not return.
\<close>

definition cfg_no_response_channel :: config where
  "cfg_no_response_channel = \<lparr>use_llm_channel = True, llm_channel = Some (py ''msh/US/2/json/llm/''),
     llm_response_channel = None, private_mode = False, send_startup_message = False\<rparr>"

definition cfg_banner :: config where
  "cfg_banner = cfg_llm\<lparr>send_startup_message := True\<rparr>"

definition env_sends_ok :: router_env where
  "env_sends_ok = \<lparr>mqtt_connect_result = True, tcp_connect_result = True,
     send_message_result = (\<lambda>a. Returns True), send_to_channel_result = (\<lambda>a. Some (Returns True)),
     tcp_my_node_id = JNull\<rparr>"

definition env_channel_fails :: router_env where
  "env_channel_fails = \<lparr>mqtt_connect_result = True, tcp_connect_result = True,
     send_message_result = (\<lambda>a. Returns (a = 1)),
     send_to_channel_result = (\<lambda>a. Some (Returns False)),
     tcp_my_node_id = JStr (py ''!a1b2'')\<rparr>"

definition env_send_raises :: router_env where
  "env_send_raises = \<lparr>mqtt_connect_result = True, tcp_connect_result = True,
     send_message_result = (\<lambda>a. Raises), send_to_channel_result = (\<lambda>a. Some (Returns True)),
     tcp_my_node_id = JStr (py ''!a1b2'')\<rparr>"

definition env_channel_hangs :: router_env where
  "env_channel_hangs = \<lparr>mqtt_connect_result = True, tcp_connect_result = True,
     send_message_result = (\<lambda>a. Returns True), send_to_channel_result = (\<lambda>a. None),
     tcp_my_node_id = JStr (py ''!a1b2'')\<rparr>"

definition router_init :: router_state where
  "router_init = \<lparr>bridge_connected = False, calls = []\<rparr>"

text \<open>
  The bridge's banner as a raw text on the dedicated channel, as \<open>_on_message\<close>
  classifies it.
\<close>

definition banner_echo :: message where
  "banner_echo = \<lparr>msg_text = JStr (startup_message cfg_banner), msg_from_id = JStr (py ''unknown''),
     msg_to_id = JStr (py ''broadcast''), msg_is_direct = True, msg_is_llm_channel = True\<rparr>"

section \<open>Properties of the outbound link\<close>

subsection \<open>\<open>connect\<close>: the backoff\<close>

lemma connect_loop_run:
  "connect_loop w m d a st = (ok, st') \<Longrightarrow>
     \<exists>evs. trace st' = trace st @ evs
       \<and> (int a \<le> m \<longrightarrow> (\<exists>es. evs = Open_interface # es))
       \<and> backoff_waits evs = map (current_delay d) [a..<a + (count_list evs Open_interface - 1)]
       \<and> a + count_list evs Open_interface \<le> max a (nat (m + 1))
       \<and> sends st' = sends st
       \<and> (ok \<longrightarrow> (\<exists>i. interface st' = Some i \<and> myInfo i = Ready))
       \<and> ((\<forall>i. int (a + i) \<le> m \<longrightarrow> \<not> attempt_succeeds (tcp_open w (opens st + i)))
            \<longrightarrow> \<not> ok \<and> count_list evs Open_interface = nat (m + 1) - a)"
proof (induction w m d a st arbitrary: ok st' rule: connect_loop.induct)
  case (1 w m d a st)
  show ?case
  proof (cases "int a < m + 1")
    case False
    with "1.prems" show ?thesis
      by (simp add: connect_loop.simps[of w m d a st])
  next
    case True
    show ?thesis
    proof (cases "int a < m")
      case last: False
      have "\<not> attempt_succeeds (tcp_open w (opens st + 0)) \<Longrightarrow> \<not> ok" "nat (m + 1) - a = 1"
        using True last "1.prems"
        by (auto simp: connect_loop.simps[of w m d a st] Let_def attempt_succeeds_def
            split: open_outcome.splits if_splits)
      moreover have "int (a + 0) \<le> m" using True by simp
      ultimately have "(\<forall>i. int (a + i) \<le> m \<longrightarrow> \<not> attempt_succeeds (tcp_open w (opens st + i))) \<longrightarrow> \<not> ok"
        by blast
      with True last "1.prems" \<open>nat (m + 1) - a = 1\<close> show ?thesis
        by (auto simp: connect_loop.simps[of w m d a st] Let_def emit_def
            split: open_outcome.splits if_splits)
    next
      case more: True
      have shift: "(\<forall>i. int (a + i) \<le> m \<longrightarrow> \<not> attempt_succeeds (tcp_open w (opens st + i)))
          \<Longrightarrow> (\<forall>i. int (Suc a + i) \<le> m \<longrightarrow> \<not> attempt_succeeds (tcp_open w (Suc (opens st) + i)))"
      proof (intro allI impI)
        fix i assume h: "\<forall>i. int (a + i) \<le> m \<longrightarrow> \<not> attempt_succeeds (tcp_open w (opens st + i))"
          and "int (Suc a + i) \<le> m"
        then have "\<not> attempt_succeeds (tcp_open w (opens st + Suc i))"
          using h[rule_format, of "Suc i"] by simp
        then show "\<not> attempt_succeeds (tcp_open w (Suc (opens st) + i))" by simp
      qed
      have cnt: "Suc (nat (m + 1) - Suc a) = nat (m + 1) - a" using more by arith
      show ?thesis
      proof (cases "tcp_open w (opens st)")
        case Open_raises
        let ?st2 = "emit [Sleep (current_delay d a)] (emit [Open_interface] (st\<lparr>opens := Suc (opens st)\<rparr>))"
        from "1.prems" True Open_raises more have rec: "connect_loop w m d (Suc a) ?st2 = (ok, st')"
          by (simp add: connect_loop.simps[of w m d a st] Let_def)
        from "1.IH"(1)[OF _ Open_raises refl more rec] True obtain evs' where
          e: "trace st' = trace ?st2 @ evs'" "int (Suc a) \<le> m \<longrightarrow> (\<exists>es. evs' = Open_interface # es)"
             "backoff_waits evs' = map (current_delay d) [Suc a..<Suc a + (count_list evs' Open_interface - 1)]"
             "Suc a + count_list evs' Open_interface \<le> max (Suc a) (nat (m + 1))"
             "sends st' = sends ?st2"
             "ok \<longrightarrow> (\<exists>i. interface st' = Some i \<and> myInfo i = Ready)"
             "(\<forall>i. int (Suc a + i) \<le> m \<longrightarrow> \<not> attempt_succeeds (tcp_open w (opens ?st2 + i)))
                \<longrightarrow> \<not> ok \<and> count_list evs' Open_interface = nat (m + 1) - Suc a"
          by blast
        from e(2) more obtain es where es: "evs' = Open_interface # es" by auto
        let ?evs = "[Open_interface, Sleep (current_delay d a)] @ evs'"
        have "trace st' = trace st @ ?evs" using e(1) by (simp add: emit_def)
        moreover have "backoff_waits ?evs = map (current_delay d) [a..<a + (count_list ?evs Open_interface - 1)]"
          using es e(3) by (simp add: upt_rec[of a])
        moreover have "a + count_list ?evs Open_interface \<le> max a (nat (m + 1))"
          using e(4) more by simp
        moreover have "sends st' = sends st" using e(5) by (simp add: emit_def)
        moreover have "(\<forall>i. int (a + i) \<le> m \<longrightarrow> \<not> attempt_succeeds (tcp_open w (opens st + i)))
            \<longrightarrow> \<not> ok \<and> count_list ?evs Open_interface = nat (m + 1) - a"
          using e(7) shift cnt by (simp add: emit_def)
        ultimately show ?thesis using e(6) by (intro exI[of _ "?evs"]) simp
      next
        case (Opened i)
        show ?thesis
        proof (cases "myInfo i = Ready")
          case True
          have "\<not> (\<forall>i. int (a + i) \<le> m \<longrightarrow> \<not> attempt_succeeds (tcp_open w (opens st + i)))"
          proof
            assume "\<forall>i. int (a + i) \<le> m \<longrightarrow> \<not> attempt_succeeds (tcp_open w (opens st + i))"
            from this[rule_format, of 0] more Opened True show False
              by (simp add: attempt_succeeds_def)
          qed
          with True \<open>int a < m + 1\<close> Opened "1.prems" show ?thesis
            by (auto simp: connect_loop.simps[of w m d a st] Let_def emit_def)
        next
          case False
          let ?st1 = "emit [Open_interface, Sleep (wait_time a)] (st\<lparr>interface := Some i, opens := Suc (opens st)\<rparr>)"
          let ?st2 = "emit [Close_interface, Sleep (current_delay d a)] ?st1"
          from "1.prems" True Opened more False have rec: "connect_loop w m d (Suc a) ?st2 = (ok, st')"
            by (simp add: connect_loop.simps[of w m d a st] Let_def)
          from "1.IH"(2)[OF _ Opened refl False more rec] \<open>int a < m + 1\<close> obtain evs' where
            e: "trace st' = trace ?st2 @ evs'" "int (Suc a) \<le> m \<longrightarrow> (\<exists>es. evs' = Open_interface # es)"
               "backoff_waits evs' = map (current_delay d) [Suc a..<Suc a + (count_list evs' Open_interface - 1)]"
               "Suc a + count_list evs' Open_interface \<le> max (Suc a) (nat (m + 1))"
               "sends st' = sends ?st2"
               "ok \<longrightarrow> (\<exists>i. interface st' = Some i \<and> myInfo i = Ready)"
               "(\<forall>i. int (Suc a + i) \<le> m \<longrightarrow> \<not> attempt_succeeds (tcp_open w (opens ?st2 + i)))
                  \<longrightarrow> \<not> ok \<and> count_list evs' Open_interface = nat (m + 1) - Suc a"
            by blast
          from e(2) more obtain es where es: "evs' = Open_interface # es" by auto
          let ?evs = "[Open_interface, Sleep (wait_time a), Close_interface, Sleep (current_delay d a)] @ evs'"
          have "trace st' = trace st @ ?evs" using e(1) by (simp add: emit_def)
          moreover have "backoff_waits ?evs = map (current_delay d) [a..<a + (count_list ?evs Open_interface - 1)]"
            using es e(3) by (simp add: upt_rec[of a])
          moreover have "a + count_list ?evs Open_interface \<le> max a (nat (m + 1))"
            using e(4) more by simp
          moreover have "sends st' = sends st" using e(5) by (simp add: emit_def)
          moreover have "(\<forall>i. int (a + i) \<le> m \<longrightarrow> \<not> attempt_succeeds (tcp_open w (opens st + i)))
              \<longrightarrow> \<not> ok \<and> count_list ?evs Open_interface = nat (m + 1) - a"
            using e(7) shift cnt by (simp add: emit_def)
          ultimately show ?thesis using e(6) by (intro exI[of _ "?evs"]) simp
        qed
      qed
    qed
  qed
qed



text \<open>
  Claim C2, as the code has it. In \<open>connect(max_retries, retry_delay)\<close> the wait
  inserted before attempt i+1 is \<open>retry_delay \<sqdot> 2^i\<close>, with no cap, for each of the
  retries that take place (at most \<open>max_retries\<close>, so i ranges over
  \<open>0..max_retries-1\<close>); when every attempt fails, all \<open>max_retries + 1\<close> attempts
  are made and \<open>connect\<close> returns \<open>False\<close>. The only ceiling in \<open>connect\<close> is the
  one of \<open>wait_time\<close>, the pause after opening a session.
\<close>

theorem connect_backoff_uncapped:
  "backoff_waits (new_events st (snd (connect w st m d)))
     = map (\<lambda>i. d * 2 ^ i) [0..<count_list (new_events st (snd (connect w st m d))) Open_interface - 1]
   \<and> count_list (new_events st (snd (connect w st m d))) Open_interface \<le> nat (m + 1)
   \<and> ((\<forall>i. int i \<le> m \<longrightarrow> \<not> attempt_succeeds (tcp_open w (opens st + i)))
        \<longrightarrow> \<not> fst (connect w st m d)
            \<and> count_list (new_events st (snd (connect w st m d))) Open_interface = nat (m + 1))"
proof -
  obtain ok st' where r: "connect_loop w m d 0 st = (ok, st')" by (cases "connect_loop w m d 0 st")
  from connect_loop_run[OF r] obtain evs where
    e: "trace st' = trace st @ evs"
       "backoff_waits evs = map (current_delay d) [0..<0 + (count_list evs Open_interface - 1)]"
       "0 + count_list evs Open_interface \<le> max 0 (nat (m + 1))"
       "(\<forall>i. int (0 + i) \<le> m \<longrightarrow> \<not> attempt_succeeds (tcp_open w (opens st + i)))
            \<longrightarrow> \<not> ok \<and> count_list evs Open_interface = nat (m + 1) - 0"
    by blast
  have n: "new_events st st' = evs" using e(1) by (simp add: new_events_def)
  have cd: "current_delay d = (\<lambda>i. d * 2 ^ i)" by (simp add: current_delay_def fun_eq_iff)
  show ?thesis using e(2,3,4) by (simp add: connect_def r n cd)
qed

text \<open>
  The default call \<open>connect(max_retries=4, retry_delay=2.0)\<close> against a device that
  refuses every session: five attempts, waits of 2, 4, 8 and 16 seconds, result \<open>False\<close>.
\<close>

theorem connect_backoff_uncapped_witness:
  "backoff_waits (new_events st_init (snd (connect world_unreachable st_init 4 2))) = [2, 4, 8, 16]
   \<and> count_list (new_events st_init (snd (connect world_unreachable st_init 4 2))) Open_interface = 5
   \<and> \<not> fst (connect world_unreachable st_init 4 2)"
  using connect_backoff_uncapped[of st_init world_unreachable 4 2]
  by (simp add: world_unreachable_def attempt_succeeds_def upt_rec)

text \<open>
  Claim C2 as stated fails: with the defaults the waits before attempts 4 and 5 are 8 and
  16 seconds, where waits capped at the 5-second ceiling of \<open>connect\<close> would be 5.
\<close>

theorem connect_backoff_cap_counterexample:
  "backoff_waits (new_events st_init (snd (connect world_unreachable st_init 4 2))) = [2, 4, 8, 16]
   \<and> map (spec_capped_delay 5 2) [0..<4] = [2, 4, 5, 5]"
  by (simp add: connect_def connect_loop.simps world_unreachable_def st_init_def emit_def
      current_delay_def new_events_def spec_capped_delay_def upt_rec Let_def)

text \<open>No ceiling at all fits: a single retry already waits longer than any given cap.\<close>

lemma connect_backoff_exceeds_any_cap:
  "backoff_waits (new_events st_init (snd (connect world_unreachable st_init 1 (\<bar>cap\<bar> + 1))))
     = [\<bar>cap\<bar> + 1]
   \<and> spec_capped_delay cap (\<bar>cap\<bar> + 1) 0 < \<bar>cap\<bar> + 1"
  by (simp add: connect_def connect_loop.simps world_unreachable_def st_init_def emit_def
      current_delay_def new_events_def spec_capped_delay_def Let_def)

lemma connect_loop_no_sends:
  "connect_loop w m d a st = (ok, st') \<Longrightarrow> \<exists>evs. trace st' = trace st @ evs \<and> sent_texts evs = []"
proof (induction w m d a st arbitrary: ok st' rule: connect_loop.induct)
  case (1 w m d a st)
  show ?case
  proof (cases "int a < m \<and> \<not> attempt_succeeds (tcp_open w (opens st))")
    case False
    with "1.prems" show ?thesis
      by (auto simp: connect_loop.simps[of w m d a st] Let_def emit_def attempt_succeeds_def
          split: open_outcome.splits if_splits)
  next
    case True
    then have more: "int a < m" and lt: "int a < m + 1" by auto
    show ?thesis
    proof (cases "tcp_open w (opens st)")
      case Open_raises
      let ?st2 = "emit [Sleep (current_delay d a)] (emit [Open_interface] (st\<lparr>opens := Suc (opens st)\<rparr>))"
      from "1.prems" lt Open_raises more have rec: "connect_loop w m d (Suc a) ?st2 = (ok, st')"
        by (simp add: connect_loop.simps[of w m d a st] Let_def)
      from "1.IH"(1)[OF _ Open_raises refl more rec] lt obtain evs' where
        e: "trace st' = trace ?st2 @ evs'" "sent_texts evs' = []" by blast
      then show ?thesis
        by (intro exI[of _ "[Open_interface, Sleep (current_delay d a)] @ evs'"]) (simp add: emit_def)
    next
      case (Opened i)
      with True have nr: "myInfo i \<noteq> Ready" by (simp add: attempt_succeeds_def)
      let ?st1 = "emit [Open_interface, Sleep (wait_time a)] (st\<lparr>interface := Some i, opens := Suc (opens st)\<rparr>)"
      let ?st2 = "emit [Close_interface, Sleep (current_delay d a)] ?st1"
      from "1.prems" lt Opened more nr have rec: "connect_loop w m d (Suc a) ?st2 = (ok, st')"
        by (simp add: connect_loop.simps[of w m d a st] Let_def)
      from "1.IH"(2)[OF _ Opened refl nr more rec] lt obtain evs' where
        e: "trace st' = trace ?st2 @ evs'" "sent_texts evs' = []" by blast
      then show ?thesis
        by (intro exI[of _ "[Open_interface, Sleep (wait_time a), Close_interface, Sleep (current_delay d a)] @ evs'"])
           (simp add: emit_def)
    qed
  qed
qed

lemma ensure_connected_run:
  assumes "ensure_connected w st = (ok, st')"
  shows "sends st' = sends st"
    and "\<exists>evs. trace st' = trace st @ evs \<and> sent_texts evs = []"
    and "ok \<Longrightarrow> \<exists>i. interface st' = Some i \<and> myInfo i \<noteq> Missing"
proof -
  show "sends st' = sends st"
    using assms connect_loop_run[of w 2 2 0 st ok st']
    by (auto simp: ensure_connected_def connect_def split: option.splits if_splits)
  show "\<exists>evs. trace st' = trace st @ evs \<and> sent_texts evs = []"
    using assms connect_loop_no_sends[of w 2 2 0 st ok st']
    by (auto simp: ensure_connected_def connect_def split: option.splits if_splits)
  show "\<exists>i. interface st' = Some i \<and> myInfo i \<noteq> Missing" if ok
    using that assms connect_loop_run[of w 2 2 0 st ok st']
    by (auto simp: ensure_connected_def connect_def split: option.splits if_splits)
qed

lemma ensure_connected_live:
  "interface st = Some i \<Longrightarrow> myInfo i \<noteq> Missing \<Longrightarrow> ensure_connected w st = (True, st)"
  by (simp add: ensure_connected_def)

subsection \<open>Chunking\<close>

lemma py_range_length: "0 < step \<Longrightarrow> length (py_range i stop step) = (stop - i + step - 1) div step"
proof (induction i stop step rule: py_range.induct)
  case (1 i stop step)
  show ?case
  proof (cases "stop \<le> i")
    case True
    with "1.prems" show ?thesis by (simp add: py_range.simps)
  next
    case False
    with "1.prems" have "length (py_range i stop step) = Suc ((stop - (i + step) + step - 1) div step)"
      using "1.IH" by (simp add: py_range.simps)
    also have "\<dots> = (stop - i + step - 1) div step"
    proof (cases "stop \<le> i + step")
      case True
      with False "1.prems" have "(stop - i + step - 1) div step = 1"
        by (intro div_nat_eqI) auto
      moreover from True "1.prems" have "(stop - (i + step) + step - 1) div step = 0"
        by simp
      ultimately show ?thesis by simp
    next
      case False
      define x where "x = stop - (i + step) + step - 1"
      from False have "stop - i + step - 1 = x + step" unfolding x_def by arith
      then have "(stop - i + step - 1) div step = (x + step) div step" by (simp only:)
      also have "\<dots> = Suc (x div step)" using "1.prems" by simp
      finally show ?thesis by (simp add: x_def)
    qed
    finally show ?thesis .
  qed
qed

lemma concat_py_range:
  "0 < n \<Longrightarrow> concat (map (\<lambda>i. take n (drop i xs)) (py_range a (length xs) n)) = drop a xs"
proof (induction a "length xs" n rule: py_range.induct)
  case (1 i step)
  show ?case
  proof (cases "length xs \<le> i")
    case True
    then show ?thesis using "1.prems" by (simp add: py_range.simps)
  next
    case False
    have "take step (drop i xs) @ drop (i + step) xs = drop i xs"
      by (metis append_take_drop_id drop_drop add.commute)
    with False "1.prems" "1.hyps" show ?thesis
      by (simp add: py_range.simps[of i])
  qed
qed

lemma split_chunks_concat: "concat (split_chunks message) = message"
  using concat_py_range[of max_chunk_size message 0]
  by (simp add: split_chunks_def max_chunk_size_def)

lemma split_chunks_size: "c \<in> set (split_chunks message) \<Longrightarrow> length c \<le> max_chunk_size"
  by (auto simp: split_chunks_def split: if_splits)

lemma split_chunks_length:
  "length (split_chunks message)
     = (if length message \<le> max_chunk_size then 1
        else (length message + (max_chunk_size - 1)) div max_chunk_size)"
  by (simp add: split_chunks_def py_range_length max_chunk_size_def add.commute)

lemma split_chunks_length_ceiling:
  "int (length (split_chunks message))
     = (if length message \<le> 190 then 1 else \<lceil>real (length message) / 190\<rceil>)"
proof -
  have "\<lceil>real L / 190\<rceil> = int ((L + 189) div 190)" for L :: nat
  proof -
    have "\<lceil>real L / 190\<rceil> = \<lceil>of_int (int L) / of_int 190 :: real\<rceil>" by simp
    also have "\<dots> = - (- int L div 190)" by (rule ceiling_divide_eq_div)
    also have "\<dots> = int ((L + 189) div 190)" by (simp add: zdiv_int)
    finally show ?thesis .
  qed
  then show ?thesis by (simp add: split_chunks_length max_chunk_size_def)
qed

lemma utf8_length_replicate: "utf8_length (replicate n c) = n * utf8_len c"
  by (induction n) (simp_all add: utf8_length_def)

subsection \<open>\<open>send_message\<close>\<close>

lemma sent_texts_append: "sent_texts (xs @ ys) = sent_texts xs @ sent_texts ys"
  by (induction xs rule: sent_texts.induct) auto

lemma send_chunks_fail:
  "k < length cs \<Longrightarrow> \<forall>j<k. send_text w (sends st + j) = Sent \<Longrightarrow>
   send_text w (sends st + k) = e \<Longrightarrow> e \<noteq> Sent \<Longrightarrow>
   \<exists>st' evs. send_chunks w to_id n i cs st = (e, st')
      \<and> interface st' = interface st
      \<and> sends st' = sends st + Suc k
      \<and> trace st' = trace st @ evs
      \<and> sent_texts evs = map (\<lambda>(j, c). (chunk_text n j c, chunk_dest to_id, None)) (take (Suc k) (enumerate i cs))"
proof (induction cs arbitrary: k i st)
  case Nil
  then show ?case by simp
next
  case (Cons c cs)
  let ?st1 = "emit [SendText (chunk_text n i c) (chunk_dest to_id) None] (st\<lparr>sends := Suc (sends st)\<rparr>)"
  show ?case
  proof (cases k)
    case 0
    with Cons.prems show ?thesis by (cases e) (simp_all add: emit_def)
  next
    case (Suc k')
    define st2 where "st2 = (if n > 1 \<and> i < n - 1 then emit [Sleep 1] ?st1 else ?st1)"
    from Suc Cons.prems have first: "send_text w (sends st) = Sent" by auto
    have s2: "sends st2 = Suc (sends st)" "interface st2 = interface st"
      "trace st2 = trace st @ [SendText (chunk_text n i c) (chunk_dest to_id) None] @ (if n > 1 \<and> i < n - 1 then [Sleep 1] else [])"
      by (auto simp: emit_def st2_def)
    have a1: "k' < length cs" using Suc Cons.prems by simp
    have a2: "\<forall>j<k'. send_text w (sends st2 + j) = Sent"
    proof (intro allI impI)
      fix j assume "j < k'"
      then have "Suc j < k" using Suc by simp
      with Cons.prems(2) have "send_text w (sends st + Suc j) = Sent" by blast
      then show "send_text w (sends st2 + j) = Sent" by (simp add: s2)
    qed
    have a3: "send_text w (sends st2 + k') = e"
      using Cons.prems(3) Suc by (simp add: s2)
    from Cons.IH[OF a1 a2 a3 Cons.prems(4), of "Suc i"] obtain st' evs where
      r: "send_chunks w to_id n (Suc i) cs st2 = (e, st')"
         "interface st' = interface st2" "sends st' = sends st2 + Suc k'"
         "trace st' = trace st2 @ evs"
         "sent_texts evs = map (\<lambda>(j, c). (chunk_text n j c, chunk_dest to_id, None)) (take (Suc k') (enumerate (Suc i) cs))"
      by blast
    have run: "send_chunks w to_id n i (c # cs) st = (e, st')"
      using first r(1) by (simp add: Let_def st2_def)
    let ?evs = "[SendText (chunk_text n i c) (chunk_dest to_id) None] @ (if n > 1 \<and> i < n - 1 then [Sleep 1] else []) @ evs"
    have "trace st' = trace st @ ?evs" using r(4) s2(3) by simp
    moreover have "sent_texts ?evs = map (\<lambda>(j, c). (chunk_text n j c, chunk_dest to_id, None)) (take (Suc k) (enumerate i (c # cs)))"
      using r(5) Suc by (simp add: sent_texts_append)
    ultimately show ?thesis using run r(2,3) s2 Suc
      by (intro exI[of _ st'] exI[of _ ?evs]) simp
  qed
qed

lemma send_chunks_all_sent:
  "\<forall>j<length cs. send_text w (sends st + j) = Sent \<Longrightarrow>
   \<exists>st' evs. send_chunks w to_id n i cs st = (Sent, st')
      \<and> sends st' = sends st + length cs
      \<and> trace st' = trace st @ evs
      \<and> sent_texts evs = map (\<lambda>(j, c). (chunk_text n j c, chunk_dest to_id, None)) (enumerate i cs)"
proof (induction cs arbitrary: i st)
  case Nil
  then show ?case by simp
next
  case (Cons c cs)
  let ?st1 = "emit [SendText (chunk_text n i c) (chunk_dest to_id) None] (st\<lparr>sends := Suc (sends st)\<rparr>)"
  define st2 where "st2 = (if n > 1 \<and> i < n - 1 then emit [Sleep 1] ?st1 else ?st1)"
  have s2: "sends st2 = Suc (sends st)"
    "trace st2 = trace st @ [SendText (chunk_text n i c) (chunk_dest to_id) None] @ (if n > 1 \<and> i < n - 1 then [Sleep 1] else [])"
    by (auto simp: emit_def st2_def)
  from Cons.prems have first: "send_text w (sends st) = Sent" by auto
  have a: "\<forall>j<length cs. send_text w (sends st2 + j) = Sent"
  proof (intro allI impI)
    fix j assume "j < length cs"
    then have "Suc j < length (c # cs)" by simp
    with Cons.prems have "send_text w (sends st + Suc j) = Sent" by blast
    then show "send_text w (sends st2 + j) = Sent" by (simp add: s2)
  qed
  from Cons.IH[OF a, of "Suc i"] obtain st' evs where
    r: "send_chunks w to_id n (Suc i) cs st2 = (Sent, st')"
       "sends st' = sends st2 + length cs" "trace st' = trace st2 @ evs"
       "sent_texts evs = map (\<lambda>(j, c). (chunk_text n j c, chunk_dest to_id, None)) (enumerate (Suc i) cs)"
    by blast
  have run: "send_chunks w to_id n i (c # cs) st = (Sent, st')"
    using first r(1) by (simp add: Let_def st2_def)
  let ?evs = "[SendText (chunk_text n i c) (chunk_dest to_id) None] @ (if n > 1 \<and> i < n - 1 then [Sleep 1] else []) @ evs"
  have "trace st' = trace st @ ?evs" using r(3) s2(2) by simp
  moreover have "sent_texts ?evs = map (\<lambda>(j, c). (chunk_text n j c, chunk_dest to_id, None)) (enumerate i (c # cs))"
    using r(4) by (simp add: sent_texts_append)
  ultimately show ?case using run r(2) s2(1)
    by (intro exI[of _ st'] exI[of _ ?evs]) simp
qed

lemma chunk_texts_take:
  "map (\<lambda>t. (t, d, None)) (take k (chunk_texts message))
     = map (\<lambda>(j, c). (chunk_text (length (split_chunks message)) j c, d, None))
         (take k (enumerate 0 (split_chunks message)))"
  by (simp add: chunk_texts_def take_map case_prod_unfold)

text \<open>
  When every \<open>sendText\<close> goes through, \<open>send_message\<close> returns \<open>True\<close> and has
  sent exactly the chunks of the message, in order, each with its prefix when there is
  more than one. Together with the lemmas on \<open>split_chunks\<close>: one chunk without a
  prefix for a text of at most 190 characters, \<open>\<lceil>L/190\<rceil>\<close> chunks of at most 190
  characters each otherwise. All lengths count characters (code points).
\<close>

lemma send_message_all_sent:
  assumes "fst (ensure_connected w st)"
      and "\<forall>j<length (split_chunks message). send_text w (sends st + j) = Sent"
  shows "fst (send_message w st message to_id)
         \<and> sent_texts (new_events st (snd (send_message w st message to_id)))
             = map (\<lambda>t. (t, chunk_dest to_id, None)) (chunk_texts message)"
proof -
  obtain st1 where ec: "ensure_connected w st = (True, st1)"
    using assms(1) by (cases "ensure_connected w st") auto
  from ensure_connected_run[OF ec] obtain evs0 where
    c: "sends st1 = sends st" "trace st1 = trace st @ evs0" "sent_texts evs0 = []"
    by auto
  let ?cs = "split_chunks message"
  from send_chunks_all_sent[of ?cs w st1 to_id "length ?cs" 0] assms(2) c(1)
  obtain st2 evs where
    r: "send_chunks w to_id (length ?cs) 0 ?cs st1 = (Sent, st2)"
       "trace st2 = trace st1 @ evs"
       "sent_texts evs = map (\<lambda>(j, c). (chunk_text (length ?cs) j c, chunk_dest to_id, None))
                           (enumerate 0 ?cs)"
    by auto
  have sm: "send_message w st message to_id = (True, st2)"
    by (simp add: send_message_def ec r(1) Let_def)
  have "new_events st (snd (send_message w st message to_id)) = evs0 @ evs"
    by (simp add: sm new_events_def r(2) c(2))
  then show ?thesis
    using c(3) r(3) by (simp add: sm sent_texts_append chunk_texts_def case_prod_unfold)
qed

text \<open>
  Claim C5 bounds the payload of a chunk by 190 bytes, and the comment of line 253 gives
  the limit in bytes, but \<open>len\<close> and the slices count characters. A text of 191
  times U+00E9 goes out as two chunks, the first carrying 190 characters, which are
  380 bytes on the wire.
\<close>

theorem send_message_chunk_exceeds_190_bytes:
  "send_message world_ok st_init (replicate 191 233) None
     = (True, \<lparr>interface = Some live_iface, tcp_connected = True, opens = 1, sends = 2,
          trace = [Open_interface, Sleep 2,
                   SendText (py ''[1/2] '' @ replicate 190 233) None None,
                   Sleep 1,
                   SendText (py ''[2/2] '' @ replicate 1 233) None None]\<rparr>)
   \<and> utf8_length (replicate 190 233) = 380"
  by (simp add: send_message_def ensure_connected_def connect_def connect_loop.simps world_ok_def
      st_init_def emit_def Let_def split_chunks_def max_chunk_size_def wait_time_def
      py_range.simps chunk_text_def chunk_prefix_def digits.simps py_def
      chunk_dest_def utf8_length_replicate utf8_len_def live_iface_def)

text \<open>
  An exception other than a transport reset ends \<open>send_message\<close> with \<open>False\<close>
  and without any further \<open>sendText\<close>.
\<close>

lemma send_message_other_error_no_retry:
  assumes "fst (ensure_connected w st)"
      and "k < length (split_chunks message)"
      and "\<forall>j<k. send_text w (sends st + j) = Sent"
      and "send_text w (sends st + k) = Other_error"
  shows "\<not> fst (send_message w st message to_id)
         \<and> sent_texts (new_events st (snd (send_message w st message to_id)))
             = map (\<lambda>t. (t, chunk_dest to_id, None)) (take (Suc k) (chunk_texts message))"
proof -
  obtain st1 where ec: "ensure_connected w st = (True, st1)"
    using assms(1) by (cases "ensure_connected w st") auto
  from ensure_connected_run[OF ec] obtain evs0 where
    c: "sends st1 = sends st" "trace st1 = trace st @ evs0" "sent_texts evs0 = []"
    by auto
  let ?cs = "split_chunks message"
  from send_chunks_fail[of k ?cs w st1 Other_error to_id "length ?cs" 0] assms(2,3,4) c(1)
  obtain st2 evs where
    r: "send_chunks w to_id (length ?cs) 0 ?cs st1 = (Other_error, st2)"
       "trace st2 = trace st1 @ evs"
       "sent_texts evs = map (\<lambda>(j, c). (chunk_text (length ?cs) j c, chunk_dest to_id, None))
                           (take (Suc k) (enumerate 0 ?cs))"
    by auto
  have sm: "send_message w st message to_id = (False, st2)"
    by (simp add: send_message_def ec r(1) Let_def)
  have "new_events st (snd (send_message w st message to_id)) = evs0 @ evs"
    by (simp add: sm new_events_def r(2) c(2))
  then show ?thesis
    using c(3) r(3) by (simp add: sm sent_texts_append chunk_texts_take)
qed

text \<open>
  Claim C10. When a \<open>sendText\<close> of the chunk loop raises a transport reset (the
  chunk with index \<open>k\<close>, after \<open>k\<close> chunks went through), \<open>send_message\<close> makes
  exactly one more \<open>sendText\<close> call, and its text is the whole original message:
  not split and without a prefix, whatever its length. The result of the call is the
  result of \<open>send_message\<close>. (After \<open>_ensure_connected\<close> succeeded once, the session
  object has its \<open>myInfo\<close> attribute, so the second \<open>_ensure_connected\<close> succeeds
  without reconnecting.)
\<close>

theorem send_message_retry_sends_whole_text:
  assumes "fst (ensure_connected w st)"
      and "k < length (split_chunks message)"
      and "\<forall>j<k. send_text w (sends st + j) = Sent"
      and "send_text w (sends st + k) = Transport_reset"
  shows "sent_texts (new_events st (snd (send_message w st message to_id)))
           = map (\<lambda>t. (t, chunk_dest to_id, None)) (take (Suc k) (chunk_texts message))
               @ [(message, retry_dest to_id, None)]
         \<and> fst (send_message w st message to_id) = (send_text w (sends st + Suc k) = Sent)"
proof -
  obtain st1 where ec: "ensure_connected w st = (True, st1)"
    using assms(1) by (cases "ensure_connected w st") auto
  from ensure_connected_run[OF ec] obtain evs0 i where
    c: "sends st1 = sends st" "trace st1 = trace st @ evs0" "sent_texts evs0 = []"
       "interface st1 = Some i" "myInfo i \<noteq> Missing"
    by auto
  let ?cs = "split_chunks message"
  from send_chunks_fail[of k ?cs w st1 Transport_reset to_id "length ?cs" 0] assms(2,3,4) c(1)
  obtain st2 evs where
    r: "send_chunks w to_id (length ?cs) 0 ?cs st1 = (Transport_reset, st2)"
       "interface st2 = interface st1" "sends st2 = sends st1 + Suc k"
       "trace st2 = trace st1 @ evs"
       "sent_texts evs = map (\<lambda>(j, c). (chunk_text (length ?cs) j c, chunk_dest to_id, None))
                           (take (Suc k) (enumerate 0 ?cs))"
    by auto
  have ec2: "ensure_connected w st2 = (True, st2)"
    using ensure_connected_live[of st2 i w] r(2) c(4,5) by simp
  have sm: "send_message w st message to_id
      = (send_text w (sends st2) = Sent,
         emit [SendText message (retry_dest to_id) None] (st2\<lparr>sends := Suc (sends st2)\<rparr>))"
    by (simp add: send_message_def ec r(1) ec2 Let_def)
  have "new_events st (snd (send_message w st message to_id))
      = evs0 @ evs @ [SendText message (retry_dest to_id) None]"
    by (simp add: sm new_events_def emit_def r(4) c(2))
  then show ?thesis
    using c(3) r(5) r(3) c(1) by (simp add: sm sent_texts_append chunk_texts_take)
qed

text \<open>
  A text of 400 characters whose second chunk meets a reset: two prefixed chunks are
  handed to \<open>sendText\<close>, then the 400 characters in one call.
\<close>

theorem send_message_retry_sends_whole_text_witness:
  "sent_texts (new_events st_init
      (snd (send_message world_second_reset st_init (replicate 400 97) (Some (py ''!abc'')))))
     = [(py ''[1/3] '' @ replicate 190 97, Some (py ''!abc''), None),
        (py ''[2/3] '' @ replicate 190 97, Some (py ''!abc''), None),
        (replicate 400 97, Some (py ''!abc''), None)]
   \<and> fst (send_message world_second_reset st_init (replicate 400 97) (Some (py ''!abc'')))"
  using send_message_retry_sends_whole_text[of world_second_reset st_init 1 "replicate 400 97"
      "Some (py ''!abc'')"]
  by (simp add: ensure_connected_def connect_def connect_loop.simps world_second_reset_def
      st_init_def live_iface_def emit_def Let_def split_chunks_def max_chunk_size_def
      py_range.simps chunk_texts_def chunk_text_def chunk_prefix_def digits.simps py_def
      chunk_dest_def retry_dest_def enumerate_eq_zip upt_rec)

subsection \<open>\<open>send_to_channel\<close>\<close>

text \<open>
  Claim C4 bounds the retry after a transport reset to one, for \<open>send\<close> and for
  \<open>send_to_channel\<close>; the comment of line 388 says "Recursive call with one less
  retry". \<open>send_message\<close> keeps the bound (see above), \<open>send_to_channel\<close> does not:
  when the first two \<open>sendText\<close> calls raise a reset and the third goes through, it
  retries twice and returns \<open>True\<close>; a nesting depth of two calls, which is one retry,
  does not reach a result.
\<close>

theorem send_to_channel_retries_twice:
  "send_to_channel 3 world_two_resets st_init (py ''reply'') (py ''LLM'')
     = Some (True, \<lparr>interface = Some live_iface, tcp_connected = True, opens = 1, sends = 3,
          trace = [Open_interface, Sleep 2,
                   SendText (py ''reply'') None (Some 2),
                   SendText (py ''reply'') None (Some 2),
                   SendText (py ''reply'') None (Some 2)]\<rparr>)
   \<and> send_to_channel 2 world_two_resets st_init (py ''reply'') (py ''LLM'') = None"
  by (simp add: ensure_connected_def connect_def connect_loop.simps world_two_resets_def
      st_init_def emit_def Let_def split_chunks_def max_chunk_size_def wait_time_def
      channel_index_def find_channel_def live_iface_def ascii_lower_def py_def
      enumerate_eq_zip upt_rec numeral_3_eq_3 numeral_2_eq_2)

text \<open>
  While every \<open>sendText\<close> raises a reset and the session object stays in place, no
  depth suffices: the retries never end.
\<close>

lemma send_to_channel_unbounded:
  assumes "interface st = Some live_iface"
  shows "send_to_channel fuel world_always_reset st (py ''reply'') (py ''LLM'') = None"
  using assms
proof (induction fuel arbitrary: st)
  case 0
  then show ?case by simp
next
  case (Suc fuel)
  let ?st1 = "emit [SendText (py ''reply'') None (Some 2)] (st\<lparr>sends := Suc (sends st)\<rparr>)"
  have ec: "ensure_connected world_always_reset st = (True, st)"
    using Suc.prems by (simp add: ensure_connected_def live_iface_def)
  have ci: "channel_index (str_lower world_always_reset) (Some live_iface) (py ''LLM'') = Inr 2"
    by (simp add: channel_index_def find_channel_def live_iface_def ascii_lower_def py_def
        world_always_reset_def enumerate_eq_zip upt_rec)
  have sc: "send_channel_chunks world_always_reset 2 (split_chunks (py ''reply'')) st = (Transport_reset, ?st1)"
    by (simp add: split_chunks_def max_chunk_size_def py_def world_always_reset_def Let_def)
  have i1: "interface ?st1 = Some live_iface" using Suc.prems by (simp add: emit_def)
  have ec1: "ensure_connected world_always_reset ?st1 = (True, ?st1)"
    using i1 by (simp add: ensure_connected_def live_iface_def)
  show ?case
    using Suc.IH[OF i1] by (simp add: ec ci sc ec1 Suc.prems)
qed

text \<open>
  An error that is no transport reset is retried as well when it is raised outside the
  chunk loop: with \<open>localNode.channels\<close> being \<open>None\<close>, the \<open>TypeError\<close> of
  \<open>enumerate(None)\<close> reaches the outer handler (lines 399-404), which calls
  \<open>send_to_channel\<close> again, without end.
\<close>

lemma send_to_channel_retries_type_error:
  assumes "interface st = Some \<lparr>myInfo = Ready, channels = Channels_None\<rparr>"
  shows "send_to_channel fuel world_channels_none st message channel_name = None"
  using assms
proof (induction fuel)
  case 0
  then show ?case by simp
next
  case (Suc fuel)
  have ec: "ensure_connected world_channels_none st = (True, st)"
    using Suc.prems by (simp add: ensure_connected_def)
  show ?case
    using Suc.IH[OF Suc.prems] by (simp add: ec channel_index_def Suc.prems)
qed

section \<open>Properties of the inbound link\<close>

subsection \<open>Classification on the dedicated channel\<close>

lemma py_eq_refl: "py_eq a a"
  by (cases a) simp_all

lemma llm_tail_Process:
  "llm_tail t from_id to_id = Inr (Process m) \<Longrightarrow>
     msg_is_direct m \<and> msg_is_llm_channel m
     \<and> (\<exists>s. msg_text m = JStr s \<and> \<not> prefix startup_marker s)"
  by (cases t) (auto simp: llm_tail_def split: if_splits)

lemma llm_tail_drops_marker:
  "prefix startup_marker s \<Longrightarrow> llm_tail (JStr s) from_id to_id = Inr Dropped"
  by (simp add: llm_tail_def)

lemma llm_json_Process:
  assumes "llm_json repr topic payload data = Inr (Process m)"
  shows "msg_is_llm_channel m"
    and "msg_is_direct m = (\<not> native_broadcast repr (Some data))"
    and "msg_text m = JStr s \<Longrightarrow> prefix startup_marker s \<Longrightarrow> native_broadcast repr (Some data) \<or> (\<exists>d. as_dict data = Some d \<and> native_text_shape d)"
proof -
  obtain d where d: "as_dict data = Some d"
    using assms by (cases "as_dict data") (auto simp: llm_json_def)
  show "msg_is_llm_channel m"
  proof (cases "native_text_shape d")
    case True
    with assms d show ?thesis
      by (auto simp: llm_json_def Let_def split: if_splits)
  next
    case False
    with assms d show ?thesis
      by (auto simp: llm_json_def Let_def split: if_splits dest: llm_tail_Process)
  qed
  show "msg_is_direct m = (\<not> native_broadcast repr (Some data))"
  proof (cases "native_text_shape d")
    case True
    with assms d show ?thesis
      by (auto simp: llm_json_def Let_def native_broadcast_def native_to_def split: if_splits)
  next
    case False
    with assms d show ?thesis
      by (auto simp: llm_json_def Let_def native_broadcast_def split: if_splits dest: llm_tail_Process)
  qed
  show "native_broadcast repr (Some data) \<or> (\<exists>d. as_dict data = Some d \<and> native_text_shape d)"
    if "msg_text m = JStr s" "prefix startup_marker s"
  proof (cases "native_text_shape d")
    case True
    with d show ?thesis by simp
  next
    case False
    with assms d that show ?thesis
      by (auto simp: llm_json_def Let_def split: if_splits dest: llm_tail_Process)
  qed
qed

lemma llm_tail_no_Enqueue: "llm_tail t from_id to_id \<noteq> Inr (Enqueue m)"
  by (cases t) (auto simp: llm_tail_def split: if_splits)

lemma llm_json_no_Enqueue: "llm_json repr topic payload data \<noteq> Inr (Enqueue m)"
  by (auto simp: llm_json_def Let_def llm_tail_no_Enqueue split: option.splits if_splits)

lemma on_message_Process:
  assumes "on_message cfg repr st topic payload parsed = (Process m, st')"
  shows "is_llm_topic cfg topic"
    and "parsed = None \<Longrightarrow> llm_tail (JStr payload) (topic_sender topic) JNull = Inr (Process m)"
    and "parsed = Some data \<Longrightarrow> llm_json repr topic payload data = Inr (Process m)"
  using assms
  by (auto simp: on_message_def Let_def split: if_splits option.splits sum.splits)

text \<open>
  Claim C6, as the code has it. A message that \<open>_on_message\<close> classifies from the
  dedicated channel is marked as such, and it is direct unless it came through case 1
  (a native text message) with a \<open>to\<close> that is absent or \<open>"broadcast"\<close>: case 1
  computes \<open>is_direct\<close> from \<open>to\<close>, all other shapes and the raw text set it to
  \<open>True\<close>.
\<close>

theorem dedicated_is_direct_unless_native_broadcast:
  assumes "on_message cfg repr st topic payload parsed = (Process m, st')"
  shows "msg_is_llm_channel m \<and> msg_is_direct m = (\<not> native_broadcast repr parsed)"
proof (cases parsed)
  case None
  from on_message_Process(2)[OF assms None] show ?thesis
    using None by (auto simp: native_broadcast_def dest: llm_tail_Process)
next
  case (Some data)
  from on_message_Process(3)[OF assms Some] show ?thesis
    using Some llm_json_Process(1,2) by blast
qed

text \<open>A raw text on a sub-topic of the dedicated channel is classified as direct.\<close>

theorem dedicated_is_direct_unless_native_broadcast_witness:
  "on_message cfg_llm repr_unused mqtt_init (py ''msh/US/2/json/llm/!a1b2'') (py ''hello'') None
     = (Process \<lparr>msg_text = JStr (py ''hello''), msg_from_id = JStr (py ''!a1b2''),
                  msg_to_id = JStr (py ''broadcast''), msg_is_direct = True,
                  msg_is_llm_channel = True\<rparr>, mqtt_init)
   \<and> \<not> native_broadcast repr_unused None"
proof -
  have h: "on_message cfg_llm repr_unused mqtt_init (py ''msh/US/2/json/llm/!a1b2'') (py ''hello'') None
     = (Process \<lparr>msg_text = JStr (py ''hello''), msg_from_id = JStr (py ''!a1b2''),
                  msg_to_id = JStr (py ''broadcast''), msg_is_direct = True,
                  msg_is_llm_channel = True\<rparr>, mqtt_init)"
    by (simp add: on_message_def is_llm_topic_def cfg_llm_def rstrip_slash_def py_def llm_tail_def
        startup_marker_def topic_sender_def py_or_def Let_def)
  from dedicated_is_direct_unless_native_broadcast[OF h] h show ?thesis by simp
qed

text \<open>
  Claim C6 as stated fails on the spec's own first scenario: the message is classified
  with \<open>is_direct = False\<close>.
\<close>

theorem scenario1_is_not_direct:
  "on_message cfg_llm repr_unused mqtt_init (py ''msh/US/2/json/llm/'') scenario1_payload
       (Some scenario1_data)
     = (Process \<lparr>msg_text = JStr (py ''hi''), msg_from_id = JStr (py ''42''),
                  msg_to_id = JStr (py ''broadcast''), msg_is_direct = False,
                  msg_is_llm_channel = True\<rparr>, mqtt_init)"
  by (simp add: on_message_def is_llm_topic_def cfg_llm_def rstrip_slash_def py_def llm_json_def
      scenario1_data_def native_text_shape_def native_to_def dict_get_def py_or_def Let_def
      str_of_int_def digits.simps)

subsection \<open>The startup marker\<close>

text \<open>
  Claim C3 says that no dedicated-channel message whose text starts with the marker
  reaches the responder. Case 1 hands its message to \<open>_process_message\<close> before the
  marker test of line 312 is reached: a native text message whose text is the marker
  itself is processed, the callback is called with it, and the bridge sends out the
  responder's answer.
\<close>

theorem native_text_echo_reaches_responder:
  "on_message cfg_llm repr mqtt_init (py ''msh/US/2/json/llm/'') echo_payload (Some echo_data)
     = (Process echo_message, mqtt_init)
   \<and> process_message mqtt_init echo_message = Some echo_message
   \<and> calls (handle_mqtt_message cfg_llm env_sends_ok (Some responder_ok) router_init echo_message)
     = [Tcp_send_message (py ''ok'') None, Tcp_send_to_channel (py ''ok'') (py ''llmres'')]"
proof -
  have name: "response_channel_name (py ''msh/US/2/json/llmres/'') = py ''llmres''"
    by (simp add: response_channel_name_def py_def Let_def)
  have ne: "py ''msh/US/2/json/llmres/'' \<noteq> []"
    by (simp add: py_def)
  have ok: "py ''ok'' \<noteq> []"
    by (simp add: py_def)
  have a: "on_message cfg_llm repr mqtt_init (py ''msh/US/2/json/llm/'') echo_payload (Some echo_data)
     = (Process echo_message, mqtt_init)"
    by (simp add: on_message_def is_llm_topic_def cfg_llm_def rstrip_slash_def py_def llm_json_def
      echo_data_def native_text_shape_def native_to_def dict_get_def py_or_def Let_def
      str_of_int_def digits.simps echo_message_def startup_marker_def)
  have b: "process_message mqtt_init echo_message = Some echo_message"
    by (simp add: process_message_def mqtt_init_def echo_message_def startup_marker_def py_def)
  have c: "calls (handle_mqtt_message cfg_llm env_sends_ok (Some responder_ok) router_init echo_message)
     = [Tcp_send_message (py ''ok'') None, Tcp_send_to_channel (py ''ok'') (py ''llmres'')]"
    by (simp add: handle_mqtt_message_def responder_ok_def echo_message_def
        send_response_via_tcp_def send_response_loop.simps attempt_body_def name ne
        cfg_llm_def env_sends_ok_def router_init_def called_def Let_def ok)
  from a b c show ?thesis by (intro conjI)
qed

text \<open>Every other shape is filtered: only case 1 lets such a text through.\<close>

lemma marker_text_only_through_native_text:
  assumes "on_message cfg repr st topic payload parsed = (Process m, st')"
      and "msg_text m = JStr s" and "prefix startup_marker s"
  shows "\<exists>data d. parsed = Some data \<and> as_dict data = Some d \<and> native_text_shape d"
proof (cases parsed)
  case None
  from on_message_Process(2)[OF assms(1) None] assms(2,3) show ?thesis
    by (auto dest: llm_tail_Process)
next
  case (Some data)
  from llm_json_Process(3)[OF on_message_Process(3)[OF assms(1) Some] assms(2,3)] Some
  show ?thesis by (auto simp: native_broadcast_def split: option.splits)
qed

subsection \<open>Messages of the bridge itself\<close>

text \<open>
  \<open>_process_message\<close>, through which messages of both origins pass, returns before
  the callback for a message whose \<open>from_id\<close> equals (Python's \<open>==\<close>) the recorded
  \<open>my_node_id\<close>, and on the regular topic such a message is not even queued.
\<close>

lemma recorded_identity_is_filtered:
  assumes "py_eq (msg_from_id m) (my_node_id st)"
  shows "process_message st m = None
         \<and> fst (on_message cfg repr st topic payload parsed) \<noteq> Enqueue m"
proof -
  have "process_message st m = None" using assms by (simp add: process_message_def)
  moreover have "fst (on_message cfg repr st topic payload parsed) \<noteq> Enqueue m"
  proof
    assume e: "fst (on_message cfg repr st topic payload parsed) = Enqueue m"
    then have "\<not> py_eq (msg_from_id m) (my_node_id st)"
      by (auto simp: on_message_def Let_def llm_tail_no_Enqueue llm_json_no_Enqueue
          split: if_splits option.splits sum.splits)
    with assms show False by simp
  qed
  ultimately show ?thesis by simp
qed

text \<open>
  The identity is recorded from a node-info event whose name is \<open>"llm_agent"\<close>, in the
  branch for topics that start with the text \<open>"msh/+/nodeinfo"\<close>.
\<close>

lemma node_info_records_identity:
  assumes "\<not> is_llm_topic cfg topic" and "\<not> prefix (py ''msh/+/rx'') topic"
      and "prefix (py ''msh/+/nodeinfo'') topic"
      and "map_of d (py ''num'') = Some node_id" and "hashable node_id"
      and "map_of d (py ''user'') = Some (JObj u)"
      and "map_of u (py ''longName'') = Some (JStr (py ''llm_agent''))"
  shows "my_node_id (snd (on_message cfg repr st topic payload (Some (JObj d)))) = node_id"
  using assms by (simp add: on_message_def dict_get_def Let_def)

text \<open>
  \<open>"msh/+/nodeinfo"\<close> and \<open>"msh/+/rx"\<close> are the filters that the client subscribes
  with (lines 136-137); \<open>+\<close> stands for one topic level there, and the topic of a
  delivered event has no \<open>+\<close> in it. On such a topic no event changes the client's
  state: the node registry stays empty and no identity is ever recorded.
\<close>

lemma delivered_event_keeps_state:
  assumes "43 \<notin> set topic"
  shows "snd (on_message cfg repr st topic payload parsed) = st"
proof -
  have "43 \<in> set topic" if "prefix (py ''msh/+/rx'') topic \<or> prefix (py ''msh/+/nodeinfo'') topic"
  proof -
    from that have "set (py ''msh/+/rx'') \<subseteq> set topic \<or> set (py ''msh/+/nodeinfo'') \<subseteq> set topic"
      by (auto dest: set_mono_prefix)
    then show ?thesis by (auto simp: py_def)
  qed
  with assms have "\<not> prefix (py ''msh/+/rx'') topic" "\<not> prefix (py ''msh/+/nodeinfo'') topic"
    by blast+
  then show ?thesis
    by (simp add: on_message_def split: option.splits sum.splits)
qed

text \<open>
  Claim C8 says that a message from the node that a node-info event named as the bridge
  is discarded. The node-info event of node \<open>!a1b2\<close> with the name \<open>"llm_agent"\<close>
  arrives on the topic \<open>msh/node1/nodeinfo\<close> and is ignored, because that topic does
  not start with \<open>"msh/+/nodeinfo"\<close>. The next message of \<open>!a1b2\<close> on the dedicated
  channel is processed, the callback is called with it, and the bridge answers it.
\<close>

theorem own_message_reaches_responder:
  "on_message cfg_llm repr mqtt_init (py ''msh/node1/nodeinfo'') node_info_payload
       (Some node_info_data)
     = (Dropped, mqtt_init)
   \<and> on_message cfg_llm repr mqtt_init (py ''msh/US/2/json/llm/'') own_payload (Some own_data)
     = (Process own_message, mqtt_init)
   \<and> process_message mqtt_init own_message = Some own_message
   \<and> calls (handle_mqtt_message cfg_llm env_sends_ok (Some responder_ok) router_init own_message)
     = [Tcp_send_message (py ''ok'') (Some (JStr (py ''!a1b2''))),
        Tcp_send_to_channel (py ''ok'') (py ''llmres'')]"
proof -
  have name: "response_channel_name (py ''msh/US/2/json/llmres/'') = py ''llmres''"
    by (simp add: response_channel_name_def py_def Let_def)
  have ne: "py ''msh/US/2/json/llmres/'' \<noteq> []"
    by (simp add: py_def)
  have ok: "py ''ok'' \<noteq> []"
    by (simp add: py_def)
  have a: "on_message cfg_llm repr mqtt_init (py ''msh/node1/nodeinfo'') node_info_payload
       (Some node_info_data) = (Dropped, mqtt_init)"
    by (simp add: on_message_def is_llm_topic_def cfg_llm_def rstrip_slash_def py_def)
  have b: "on_message cfg_llm repr mqtt_init (py ''msh/US/2/json/llm/'') own_payload (Some own_data)
     = (Process own_message, mqtt_init)"
    by (simp add: on_message_def is_llm_topic_def cfg_llm_def rstrip_slash_def py_def llm_json_def
      own_data_def native_text_shape_def dict_get_def py_or_def Let_def llm_tail_def
      own_message_def startup_marker_def)
  have c: "process_message mqtt_init own_message = Some own_message"
    by (simp add: process_message_def mqtt_init_def own_message_def py_def)
  have d: "calls (handle_mqtt_message cfg_llm env_sends_ok (Some responder_ok) router_init own_message)
     = [Tcp_send_message (py ''ok'') (Some (JStr (py ''!a1b2''))),
        Tcp_send_to_channel (py ''ok'') (py ''llmres'')]"
    by (simp add: handle_mqtt_message_def responder_ok_def own_message_def
        send_response_via_tcp_def send_response_loop.simps attempt_body_def name ne
        cfg_llm_def env_sends_ok_def router_init_def called_def Let_def ok)
  from a b c d show ?thesis by (intro conjI)
qed

section \<open>Properties of the router\<close>

subsection \<open>The startup banner\<close>

text \<open>
  The inbound client's own banner is the marker string, and the marker test drops it.
\<close>

lemma inbound_banner_is_marker:
  "inbound_startup_message = startup_marker
   \<and> llm_tail (JStr inbound_startup_message) from_id to_id = Inr Dropped"
  by (simp add: inbound_startup_message_def startup_marker_def llm_tail_def py_def)

text \<open>
  The bridge's banner has the words of the marker and goes on after them, but its first
  characters are not the marker's symbol: whatever the configuration, the banner does
  not start with the marker.
\<close>

lemma bridge_banner_text:
  "startup_message cfg = banner_symbol @ tl startup_marker
      @ py '' and ready for conversations!''
      @ (if private_mode cfg then py '' (Private mode: only responding to direct messages)'' else [])
      @ (if use_llm_channel cfg
         then py '' (Listening on channel: ''
              @ (case llm_channel cfg of None \<Rightarrow> py ''None'' | Some ch \<Rightarrow> ch) @ py '')''
         else [])"
  by (simp add: startup_message_def startup_marker_def py_def)

lemma bridge_banner_never_starts_with_marker:
  "\<not> prefix startup_marker (startup_message cfg)"
  by (simp add: startup_message_def startup_marker_def banner_symbol_def)

text \<open>
  Claim C9 says that the banner which the bridge sends on connect is the marker of the
  self-echo test. With the banner switched on, \<open>connect\<close> sends a text that starts with
  U+00F0 U+0178 U+201C U+00A2 where the marker has U+1F4E2: it is not the marker and does
  not start with it. When that text comes back on the dedicated channel, the marker
  test of line 312 lets it pass, and the callback is called with the bridge's own banner.
\<close>

theorem bridge_banner_is_not_the_marker:
  "take 4 (new_calls router_init (snd (hybrid_connect cfg_banner env_sends_ok router_init)))
     = [Mqtt_connect, Tcp_connect 4, Set_mqtt_callback,
        Tcp_send_message (startup_message cfg_banner) None]
   \<and> take 4 (startup_message cfg_banner) = [240, 376, 8220, 162]
   \<and> take 1 startup_marker = [128226]
   \<and> startup_message cfg_banner \<noteq> startup_marker
   \<and> \<not> prefix startup_marker (startup_message cfg_banner)
   \<and> on_message cfg_banner repr mqtt_init (py ''msh/US/2/json/llm/'') (startup_message cfg_banner)
        None
     = (Process banner_echo, mqtt_init)
   \<and> process_message mqtt_init banner_echo = Some banner_echo"
proof -
  have a: "take 4 (new_calls router_init (snd (hybrid_connect cfg_banner env_sends_ok router_init)))
     = [Mqtt_connect, Tcp_connect 4, Set_mqtt_callback,
        Tcp_send_message (startup_message cfg_banner) None]"
    by (simp add: hybrid_connect_def send_startup_messages_def called_def new_calls_def Let_def
      env_sends_ok_def router_init_def cfg_banner_def cfg_llm_def)
  have b: "take 4 (startup_message cfg_banner) = [240, 376, 8220, 162]"
    by (simp add: startup_message_def banner_symbol_def)
  have c: "take 1 startup_marker = [128226]"
    by (simp add: startup_marker_def)
  have d: "\<not> prefix startup_marker (startup_message cfg_banner)"
    by (simp add: startup_message_def startup_marker_def banner_symbol_def)
  then have e: "startup_message cfg_banner \<noteq> startup_marker"
    by auto
  have t: "truthy (JStr (startup_message cfg_banner))"
    by (simp add: startup_message_def banner_symbol_def)
  have s: "topic_sender (py ''msh/US/2/json/llm/'') = JStr (py ''unknown'')"
    by (simp add: topic_sender_def py_def Let_def)
  have l: "is_llm_topic cfg_banner (py ''msh/US/2/json/llm/'')"
    by (simp add: is_llm_topic_def cfg_banner_def cfg_llm_def rstrip_slash_def py_def)
  have f: "on_message cfg_banner repr mqtt_init (py ''msh/US/2/json/llm/'')
        (startup_message cfg_banner) None = (Process banner_echo, mqtt_init)"
    using d t by (simp add: on_message_def l llm_tail_def s banner_echo_def py_or_def)
  have g: "process_message mqtt_init banner_echo = Some banner_echo"
    using t by (simp add: process_message_def mqtt_init_def banner_echo_def py_def)
  from a b c e d f g show ?thesis by (intro conjI)
qed

subsection \<open>\<open>connect\<close>\<close>

text \<open>
  Claim C7. The bridge's \<open>connect\<close> returns what the inbound link's \<open>connect\<close>
  returned, whatever the outbound link's \<open>connect\<close> returns; the inbound link is
  connected first, and the outbound link is tried exactly when the inbound link is up.
\<close>

theorem hybrid_connect_result:
  "fst (hybrid_connect cfg env st) = mqtt_connect_result env
   \<and> take 1 (new_calls st (snd (hybrid_connect cfg env st))) = [Mqtt_connect]
   \<and> (Tcp_connect 4 \<in> set (new_calls st (snd (hybrid_connect cfg env st))))
       = mqtt_connect_result env"
  by (simp add: hybrid_connect_def Let_def send_startup_messages_def called_def new_calls_def)

subsection \<open>The reply policy\<close>

lemma new_calls_append [simp]: "calls st' = calls st @ es \<Longrightarrow> new_calls st st' = es"
  by (simp add: new_calls_def)

lemma calls_called: "calls (called es st) = calls st @ es"
  by (simp add: called_def)

lemma called_called: "called es' (called es st) = called (es @ es') st"
  by (simp add: called_def)

lemma attempt_body_calls:
  "attempt_body cfg env response from_id is_direct is_llm attempt st = r \<Longrightarrow>
     (\<exists>st' es. r = Continue st' \<and> attempt < 2 \<and> calls st' = calls st @ es
         \<and> es \<noteq> [] \<and> filter is_publish es = [])
     \<or> (\<exists>st' es. (r = Done st' \<or> r = Blocked st') \<and> calls st' = calls st @ es
           \<and> filter is_publish (butlast es) = []
           \<and> (\<not> (is_llm \<and> use_llm_channel cfg) \<longrightarrow> filter is_publish es = []))"
  by (auto simp: attempt_body_def handle_exception_def called_def
      send_response_via_mqtt_llm_channel_def Let_def
      split: if_splits call_result.splits option.splits)

lemma send_response_loop_calls:
  "\<exists>es. calls (send_response_loop cfg env response from_id is_direct is_llm attempt st) = calls st @ es
     \<and> filter is_publish (butlast es) = []
     \<and> (\<not> (is_llm \<and> use_llm_channel cfg) \<longrightarrow> filter is_publish es = [])"
proof (induction cfg env response from_id is_direct is_llm attempt st rule: send_response_loop.induct)
  case (1 cfg env response from_id is_direct is_llm attempt st)
  show ?case
  proof (cases "attempt < 3")
    case False
    then show ?thesis by (simp add: send_response_loop.simps)
  next
    case True
    from attempt_body_calls[OF refl, of cfg env response from_id is_direct is_llm attempt st]
    show ?thesis
    proof (elim disjE exE conjE)
      fix st' es
      assume c: "attempt_body cfg env response from_id is_direct is_llm attempt st = Continue st'"
        and e: "calls st' = calls st @ es" "es \<noteq> []" "filter is_publish es = []"
      from "1.IH"[OF _ c] True obtain es' where
        r: "calls (send_response_loop cfg env response from_id is_direct is_llm (Suc attempt) st') = calls st' @ es'"
           "filter is_publish (butlast es') = []"
           "\<not> (is_llm \<and> use_llm_channel cfg) \<longrightarrow> filter is_publish es' = []"
        by auto
      have "send_response_loop cfg env response from_id is_direct is_llm attempt st
          = send_response_loop cfg env response from_id is_direct is_llm (Suc attempt) st'"
        using True c by (simp add: send_response_loop.simps[of _ _ _ _ _ _ attempt])
      moreover have "filter is_publish (butlast (es @ es')) = []"
        using e r(2) by (auto simp: butlast_append filter_empty_conv dest: in_set_butlastD)
      ultimately show ?thesis using r e
        by (intro exI[of _ "es @ es'"]) simp
    next
      fix st' es
      assume c: "attempt_body cfg env response from_id is_direct is_llm attempt st = Done st'"
        and e: "calls st' = calls st @ es" "filter is_publish (butlast es) = []"
               "\<not> (is_llm \<and> use_llm_channel cfg) \<longrightarrow> filter is_publish es = []"
      have "send_response_loop cfg env response from_id is_direct is_llm attempt st = st'"
        using True c by (simp add: send_response_loop.simps[of _ _ _ _ _ _ attempt])
      then show ?thesis using e by auto
    next
      fix st' es
      assume c: "attempt_body cfg env response from_id is_direct is_llm attempt st = Blocked st'"
        and e: "calls st' = calls st @ es" "filter is_publish (butlast es) = []"
               "\<not> (is_llm \<and> use_llm_channel cfg) \<longrightarrow> filter is_publish es = []"
      have "send_response_loop cfg env response from_id is_direct is_llm attempt st = st'"
        using True c by (simp add: send_response_loop.simps[of _ _ _ _ _ _ attempt])
      then show ?thesis using e by auto
    qed
  qed
qed

text \<open>
  With a response channel configured: an attempt that is repeated, and the attempt that
  ends the call.
\<close>

lemma loop_repeats_configured:
  assumes "is_llm" "use_llm_channel cfg" "llm_response_channel cfg = Some ch" "ch \<noteq> []"
      and "attempt < 2"
      and "send_message_result env attempt \<noteq> Returns True
           \<or> send_to_channel_result env attempt = Some Raises"
  shows "send_response_loop cfg env response from_id is_direct is_llm attempt st =
     send_response_loop cfg env response from_id is_direct is_llm (Suc attempt)
       (called (Tcp_send_message response (if private_mode cfg \<or> is_direct then Some from_id else None)
          # (if send_message_result env attempt = Raises then [Router_sleep 2]
             else if send_message_result env attempt = Returns True
             then [Tcp_send_to_channel response (response_channel_name ch), Router_sleep 2]
             else [])) st)"
proof -
  from assms(5) have lt: "attempt < 3" by simp
  show ?thesis
  proof (cases "send_message_result env attempt")
    case Raises
    then show ?thesis using assms lt
      by (simp add: send_response_loop.simps[of _ _ _ _ _ _ attempt] attempt_body_def
          handle_exception_def called_def Let_def)
  next
    case (Returns success)
    show ?thesis
    proof (cases success)
      case False
      then show ?thesis using Returns assms lt
        by (simp add: send_response_loop.simps[of _ _ _ _ _ _ attempt] attempt_body_def
            handle_exception_def called_def Let_def)
    next
      case True
      with Returns assms(6) have "send_to_channel_result env attempt = Some Raises" by simp
      then show ?thesis using True Returns assms(1-5) lt
        by (simp add: send_response_loop.simps[of _ _ _ _ _ _ attempt] attempt_body_def
            handle_exception_def called_def Let_def)
    qed
  qed
qed

lemma loop_ends_configured:
  assumes "is_llm" "use_llm_channel cfg" "llm_response_channel cfg = Some ch" "ch \<noteq> []"
      and "attempt < 3"
      and "attempt < 2 \<longrightarrow> send_message_result env attempt = Returns True
             \<and> send_to_channel_result env attempt \<noteq> Some Raises"
  shows "send_response_loop cfg env response from_id is_direct is_llm attempt st =
     called (Tcp_send_message response (if private_mode cfg \<or> is_direct then Some from_id else None)
        # (if send_message_result env attempt = Raises
           then [Publish_to_llm_response_channel (response_data cfg env response from_id)]
           else Tcp_send_to_channel response (response_channel_name ch)
                # (if send_to_channel_result env attempt = Some (Returns True)
                      \<or> send_to_channel_result env attempt = None
                   then []
                   else [Publish_to_llm_response_channel (response_data cfg env response from_id)]))) st"
proof (cases "attempt < 2")
  case True
  with assms(6) have r: "send_message_result env attempt = Returns True"
    "send_to_channel_result env attempt \<noteq> Some Raises" by simp_all
  show ?thesis
  proof (cases "send_to_channel_result env attempt")
    case None
    then show ?thesis using r assms(1-5)
      by (simp add: send_response_loop.simps[of _ _ _ _ _ _ attempt] attempt_body_def
          called_def Let_def)
  next
    case (Some c)
    with r(2) obtain b where "c = Returns b" by (cases c) auto
    then show ?thesis using Some r assms(1-5)
      by (simp add: send_response_loop.simps[of _ _ _ _ _ _ attempt] attempt_body_def
          send_response_via_mqtt_llm_channel_def called_def Let_def)
  qed
next
  case False
  with assms(5) have a: "attempt = 2" by simp
  show ?thesis
  proof (cases "send_message_result env 2")
    case Raises
    then show ?thesis using a assms(1-4)
      by (simp add: send_response_loop.simps[of _ _ _ _ _ _ 2] attempt_body_def
          handle_exception_def send_response_via_mqtt_llm_channel_def called_def Let_def)
  next
    case (Returns success)
    show ?thesis
    proof (cases "send_to_channel_result env 2")
      case None
      then show ?thesis using Returns a assms(1-4)
        by (simp add: send_response_loop.simps[of _ _ _ _ _ _ 2] attempt_body_def
            called_def Let_def)
    next
      case (Some c)
      then show ?thesis using Returns a assms(1-4)
        by (cases c)
           (simp_all add: send_response_loop.simps[of _ _ _ _ _ _ 2] attempt_body_def
            handle_exception_def send_response_via_mqtt_llm_channel_def called_def Let_def)
    qed
  qed
qed

lemma dedicated_reply_configured:
  assumes cfgd: "is_llm" "use_llm_channel cfg" "llm_response_channel cfg = Some ch" "ch \<noteq> []"
  shows "\<exists>k<3.
      (\<forall>j<k. send_message_result env j \<noteq> Returns True \<or> send_to_channel_result env j = Some Raises)
    \<and> (k < 2 \<longrightarrow> send_message_result env k = Returns True
                  \<and> send_to_channel_result env k \<noteq> Some Raises)
    \<and> new_calls st (send_response_via_tcp cfg env response from_id is_direct is_llm st)
        = concat (map (\<lambda>j. Tcp_send_message response
                               (if private_mode cfg \<or> is_direct then Some from_id else None)
                          # (if send_message_result env j = Raises then [Router_sleep 2]
                             else if send_message_result env j = Returns True
                             then [Tcp_send_to_channel response (response_channel_name ch),
                                   Router_sleep 2]
                             else [])) [0..<k])
          @ Tcp_send_message response (if private_mode cfg \<or> is_direct then Some from_id else None)
            # (if send_message_result env k = Raises
               then [Publish_to_llm_response_channel (response_data cfg env response from_id)]
               else Tcp_send_to_channel response (response_channel_name ch)
                    # (if send_to_channel_result env k = Some (Returns True)
                          \<or> send_to_channel_result env k = None
                       then []
                       else [Publish_to_llm_response_channel
                               (response_data cfg env response from_id)]))"
proof -
  define again where "again = (\<lambda>j. Tcp_send_message response
                               (if private_mode cfg \<or> is_direct then Some from_id else None)
                          # (if send_message_result env j = Raises then [Router_sleep 2]
                             else if send_message_result env j = Returns True
                             then [Tcp_send_to_channel response (response_channel_name ch),
                                   Router_sleep 2]
                             else []))"
  define final where "final = (\<lambda>k. Tcp_send_message response
               (if private_mode cfg \<or> is_direct then Some from_id else None)
            # (if send_message_result env k = Raises
               then [Publish_to_llm_response_channel (response_data cfg env response from_id)]
               else Tcp_send_to_channel response (response_channel_name ch)
                    # (if send_to_channel_result env k = Some (Returns True)
                          \<or> send_to_channel_result env k = None
                       then []
                       else [Publish_to_llm_response_channel
                               (response_data cfg env response from_id)])))"
  define repeated where "repeated = (\<lambda>j. send_message_result env j \<noteq> Returns True
      \<or> send_to_channel_result env j = Some Raises)"
  let ?loop = "send_response_loop cfg env response from_id is_direct is_llm"
  have cont: "?loop a st0 = ?loop (Suc a) (called (again a) st0)" if "a < 2" "repeated a" for a st0
    using loop_repeats_configured[OF cfgd that(1), of env response from_id is_direct st0] that(2)
    by (simp add: again_def repeated_def)
  have fin: "?loop a st0 = called (final a) st0" if "a < 3" "a < 2 \<longrightarrow> \<not> repeated a" for a st0
    using loop_ends_configured[OF cfgd that(1), of env response from_id is_direct st0] that(2)
    by (simp add: final_def repeated_def)
  have goal: "\<exists>k<3. (\<forall>j<k. repeated j) \<and> (k < 2 \<longrightarrow> \<not> repeated k)
      \<and> new_calls st (?loop 0 st) = concat (map again [0..<k]) @ final k"
  proof (cases "repeated 0")
    case False
    with fin[of 0 st] show ?thesis
      by (intro exI[of _ 0]) (simp add: calls_called)
  next
    case r0: True
    show ?thesis
    proof (cases "repeated 1")
      case False
      from cont[of 0 st] r0 fin[of 1 "called (again 0) st"] False
      have "?loop 0 st = called (again 0 @ final 1) st"
        by (simp add: called_called)
      with r0 False show ?thesis
        by (intro exI[of _ 1]) (simp add: calls_called)
    next
      case r1: True
      from cont[of 0 st] r0 cont[of 1 "called (again 0) st"] r1
           fin[of 2 "called (again 1) (called (again 0) st)"]
      have "?loop 0 st = called (again 0 @ again 1 @ final 2) st"
        by (simp add: called_called numeral_2_eq_2)
      with r0 r1 show ?thesis
        by (intro exI[of _ 2]) (simp add: calls_called numeral_2_eq_2 less_Suc_eq)
    qed
  qed
  then show ?thesis
    unfolding again_def final_def repeated_def send_response_via_tcp_def by simp
qed

text \<open>With no response channel configured.\<close>

lemma loop_repeats_unconfigured:
  assumes "llm_response_channel cfg = None \<or> llm_response_channel cfg = Some []"
      and "attempt < 2" and "send_message_result env attempt \<noteq> Returns True"
  shows "send_response_loop cfg env response from_id is_direct is_llm attempt st =
     send_response_loop cfg env response from_id is_direct is_llm (Suc attempt)
       (called (Tcp_send_message response (if private_mode cfg \<or> is_direct then Some from_id else None)
          # (if send_message_result env attempt = Raises then [Router_sleep 2] else [])) st)"
proof -
  from assms(2) have lt: "attempt < 3" by simp
  show ?thesis
  proof (cases "send_message_result env attempt")
    case Raises
    then show ?thesis using assms lt
      by (simp add: send_response_loop.simps[of _ _ _ _ _ _ attempt] attempt_body_def
          handle_exception_def called_def Let_def)
  next
    case (Returns success)
    with assms(3) have "\<not> success" by simp
    then show ?thesis using Returns assms lt
      by (simp add: send_response_loop.simps[of _ _ _ _ _ _ attempt] attempt_body_def
          handle_exception_def called_def Let_def)
  qed
qed

lemma loop_ends_unconfigured:
  assumes "is_llm" "use_llm_channel cfg"
      and "llm_response_channel cfg = None \<or> llm_response_channel cfg = Some []"
      and "attempt < 3" and "attempt < 2 \<longrightarrow> send_message_result env attempt = Returns True"
  shows "send_response_loop cfg env response from_id is_direct is_llm attempt st =
     called (Tcp_send_message response (if private_mode cfg \<or> is_direct then Some from_id else None)
        # (if send_message_result env attempt = Raises
           then [Publish_to_llm_response_channel (response_data cfg env response from_id)]
           else [])) st"
proof (cases "send_message_result env attempt")
  case Raises
  with assms(4,5) have "attempt = 2" by (cases "attempt < 2") auto
  then show ?thesis using Raises assms(1,2)
    by (simp add: send_response_loop.simps[of _ _ _ _ _ _ 2] attempt_body_def
        handle_exception_def send_response_via_mqtt_llm_channel_def called_def Let_def)
next
  case (Returns success)
  from assms(4,5) Returns have "\<not> (\<not> success \<and> attempt < 2)" by auto
  then show ?thesis using Returns assms(1-4)
    by (auto simp: send_response_loop.simps[of _ _ _ _ _ _ attempt] attempt_body_def
        called_def Let_def)
qed

lemma dedicated_reply_unconfigured:
  assumes d: "is_llm" "use_llm_channel cfg"
      and u: "llm_response_channel cfg = None \<or> llm_response_channel cfg = Some []"
  shows "\<exists>k<3.
      (\<forall>j<k. send_message_result env j \<noteq> Returns True)
    \<and> (k < 2 \<longrightarrow> send_message_result env k = Returns True)
    \<and> new_calls st (send_response_via_tcp cfg env response from_id is_direct is_llm st)
        = concat (map (\<lambda>j. Tcp_send_message response
                               (if private_mode cfg \<or> is_direct then Some from_id else None)
                          # (if send_message_result env j = Raises then [Router_sleep 2] else []))
                    [0..<k])
          @ Tcp_send_message response (if private_mode cfg \<or> is_direct then Some from_id else None)
            # (if send_message_result env k = Raises
               then [Publish_to_llm_response_channel (response_data cfg env response from_id)]
               else [])"
proof -
  define again where "again = (\<lambda>j. Tcp_send_message response
                               (if private_mode cfg \<or> is_direct then Some from_id else None)
                          # (if send_message_result env j = Raises then [Router_sleep 2] else []))"
  define final where "final = (\<lambda>k. Tcp_send_message response
               (if private_mode cfg \<or> is_direct then Some from_id else None)
            # (if send_message_result env k = Raises
               then [Publish_to_llm_response_channel (response_data cfg env response from_id)]
               else []))"
  define repeated where "repeated = (\<lambda>j. send_message_result env j \<noteq> Returns True)"
  let ?loop = "send_response_loop cfg env response from_id is_direct is_llm"
  have cont: "?loop a st0 = ?loop (Suc a) (called (again a) st0)" if "a < 2" "repeated a" for a st0
    using loop_repeats_unconfigured[OF u that(1), of env response from_id is_direct is_llm st0] that(2)
    by (simp add: again_def repeated_def)
  have fin: "?loop a st0 = called (final a) st0" if "a < 3" "a < 2 \<longrightarrow> \<not> repeated a" for a st0
    using loop_ends_unconfigured[OF d u that(1), of env response from_id is_direct st0] that(2)
    by (simp add: final_def repeated_def)
  have goal: "\<exists>k<3. (\<forall>j<k. repeated j) \<and> (k < 2 \<longrightarrow> \<not> repeated k)
      \<and> new_calls st (?loop 0 st) = concat (map again [0..<k]) @ final k"
  proof (cases "repeated 0")
    case False
    with fin[of 0 st] show ?thesis
      by (intro exI[of _ 0]) (simp add: calls_called)
  next
    case r0: True
    show ?thesis
    proof (cases "repeated 1")
      case False
      from cont[of 0 st] r0 fin[of 1 "called (again 0) st"] False
      have "?loop 0 st = called (again 0 @ final 1) st"
        by (simp add: called_called)
      with r0 False show ?thesis
        by (intro exI[of _ 1]) (simp add: calls_called)
    next
      case r1: True
      from cont[of 0 st] r0 cont[of 1 "called (again 0) st"] r1
           fin[of 2 "called (again 1) (called (again 0) st)"]
      have "?loop 0 st = called (again 0 @ again 1 @ final 2) st"
        by (simp add: called_called numeral_2_eq_2)
      with r0 r1 show ?thesis
        by (intro exI[of _ 2]) (simp add: calls_called numeral_2_eq_2 less_Suc_eq)
    qed
  qed
  then show ?thesis
    unfolding again_def final_def repeated_def send_response_via_tcp_def by simp
qed

text \<open>
  A message is of the dedicated channel only where that channel is in use.
\<close>

lemma dedicated_origin_uses_channel:
  assumes "on_message cfg repr st topic payload parsed = (Process m, st')"
  shows "msg_is_llm_channel m \<and> use_llm_channel cfg"
proof -
  from on_message_Process(1)[OF assms] have "use_llm_channel cfg"
    by (simp add: is_llm_topic_def)
  moreover have "msg_is_llm_channel m"
  proof (cases parsed)
    case None
    from on_message_Process(2)[OF assms None] show ?thesis
      by (auto dest: llm_tail_Process)
  next
    case (Some data)
    from on_message_Process(3)[OF assms Some] show ?thesis
      by (rule llm_json_Process(1))
  qed
  ultimately show ?thesis by simp
qed

text \<open>
  Claim C1, as the code has it. The bridge makes up to three attempts, and each attempt
  begins with \<open>send_message\<close>.

  \<^item> With a response channel configured, an attempt is repeated (while it is not the
    third) when \<open>send_message\<close> did not return \<open>True\<close> or \<open>send_to_channel\<close> raised,
    after a pause if a call raised. The attempt \<open>k\<close> that ends the reply calls
    \<open>send_to_channel\<close> once \<open>send_message\<close> has returned, and it calls the inbound
    link's \<open>publish_to_llm_response_channel\<close> exactly when \<open>send_to_channel\<close> returned
    \<open>False\<close>, or when one of the two calls raised in the third attempt.
  \<^item> With no response channel configured, \<open>send_to_channel\<close> is never called, and the
    inbound link is called only when \<open>send_message\<close> raised in the third attempt.
  \<^item> A reply to a message of any other origin never reaches the inbound link.
  \<^item> In every case the call of the inbound link, if there is one, is the last call of
    all: no outbound call follows it.
\<close>

theorem dedicated_reply_policy:
  "let send = Tcp_send_message response (if private_mode cfg \<or> is_direct then Some from_id else None);
       to_channel = Tcp_send_to_channel response (response_channel_name ch);
       publish = Publish_to_llm_response_channel (response_data cfg env response from_id);
       pause = Router_sleep 2;
       sent = send_message_result env;
       channel_sent = send_to_channel_result env;
       made = new_calls st (send_response_via_tcp cfg env response from_id is_direct is_llm st)
   in (is_llm \<and> use_llm_channel cfg \<and> llm_response_channel cfg = Some ch \<and> ch \<noteq> [] \<longrightarrow>
         (\<exists>k<3. (\<forall>j<k. sent j \<noteq> Returns True \<or> channel_sent j = Some Raises)
            \<and> (k < 2 \<longrightarrow> sent k = Returns True \<and> channel_sent k \<noteq> Some Raises)
            \<and> made = concat (map (\<lambda>j. send # (if sent j = Raises then [pause]
                                               else if sent j = Returns True then [to_channel, pause]
                                               else [])) [0..<k])
                     @ send # (if sent k = Raises then [publish]
                               else to_channel
                                    # (if channel_sent k = Some (Returns True) \<or> channel_sent k = None
                                       then [] else [publish]))))
    \<and> (is_llm \<and> use_llm_channel cfg
         \<and> (llm_response_channel cfg = None \<or> llm_response_channel cfg = Some []) \<longrightarrow>
         (\<exists>k<3. (\<forall>j<k. sent j \<noteq> Returns True)
            \<and> (k < 2 \<longrightarrow> sent k = Returns True)
            \<and> made = concat (map (\<lambda>j. send # (if sent j = Raises then [pause] else [])) [0..<k])
                     @ send # (if sent k = Raises then [publish] else [])))
    \<and> (\<not> (is_llm \<and> use_llm_channel cfg) \<longrightarrow> filter is_publish made = [])
    \<and> filter is_publish (butlast made) = []"
proof -
  from send_response_loop_calls[of cfg env response from_id is_direct is_llm 0 st]
  obtain es where
    e: "calls (send_response_via_tcp cfg env response from_id is_direct is_llm st) = calls st @ es"
       "filter is_publish (butlast es) = []"
       "\<not> (is_llm \<and> use_llm_channel cfg) \<longrightarrow> filter is_publish es = []"
    by (auto simp: send_response_via_tcp_def)
  have n: "new_calls st (send_response_via_tcp cfg env response from_id is_direct is_llm st) = es"
    using e(1) by simp
  have c3: "\<not> (is_llm \<and> use_llm_channel cfg) \<longrightarrow>
        filter is_publish
          (new_calls st (send_response_via_tcp cfg env response from_id is_direct is_llm st)) = []"
    using e(3) by (simp only: n)
  have c4: "filter is_publish
        (butlast (new_calls st (send_response_via_tcp cfg env response from_id is_direct is_llm st))) = []"
    using e(2) by (simp only: n)
  show ?thesis
    unfolding Let_def
    using dedicated_reply_configured[of is_llm cfg ch env st response from_id is_direct]
      dedicated_reply_unconfigured[of is_llm cfg env st response from_id is_direct] c3 c4
    by (intro conjI impI) blast+
qed

text \<open>
  The direct send fails once and then succeeds, the channel send fails: two
  \<open>send_message\<close> calls, one \<open>send_to_channel\<close>, then the fallback.
\<close>

theorem dedicated_reply_policy_witness:
  "new_calls router_init
        (send_response_via_tcp cfg_llm env_channel_fails (py ''hi there'') (JStr (py ''!c3d4''))
           True True router_init)
      = [Tcp_send_message (py ''hi there'') (Some (JStr (py ''!c3d4''))),
         Tcp_send_message (py ''hi there'') (Some (JStr (py ''!c3d4''))),
         Tcp_send_to_channel (py ''hi there'') (py ''llmres''),
         Publish_to_llm_response_channel
           (response_data cfg_llm env_channel_fails (py ''hi there'') (JStr (py ''!c3d4'')))]"
proof -
  have name: "response_channel_name (py ''msh/US/2/json/llmres/'') = py ''llmres''"
    by (simp add: response_channel_name_def py_def Let_def)
  have ne: "py ''msh/US/2/json/llmres/'' \<noteq> []"
    by (simp add: py_def)
  have three: "(\<exists>k<3. P k) = (P 0 \<or> P 1 \<or> P 2)" for P :: "nat \<Rightarrow> bool"
    by (auto simp: numeral_3_eq_3 less_Suc_eq numeral_2_eq_2)
  from dedicated_reply_policy[where cfg = cfg_llm and env = env_channel_fails
      and response = "py ''hi there''" and from_id = "JStr (py ''!c3d4'')" and is_direct = True
      and is_llm = True and ch = "py ''msh/US/2/json/llmres/''" and st = router_init]
  show ?thesis
    by (simp add: Let_def three All_less_Suc numeral_2_eq_2 cfg_llm_def env_channel_fails_def
        name ne)
qed

text \<open>
  Claim C1 as stated fails: with no response channel configured (the constructor's
  default), the reply to a dedicated-channel message is sent with \<open>send_message\<close>
  only; \<open>send_to_channel\<close> is not attempted and there is no fallback.
\<close>

theorem reply_without_response_channel:
  "new_calls router_init
      (send_response_via_tcp cfg_no_response_channel env_sends_ok (py ''hi there'')
         (JStr (py ''!c3d4'')) True True router_init)
     = [Tcp_send_message (py ''hi there'') (Some (JStr (py ''!c3d4'')))]"
  by (simp add: send_response_via_tcp_def send_response_loop.simps attempt_body_def
      cfg_no_response_channel_def env_sends_ok_def router_init_def called_def new_calls_def Let_def)

text \<open>
  The handler: when every \<open>send_message\<close> raises, the bridge pauses twice and then
  hands the reply to the inbound link, without a call of \<open>send_to_channel\<close>.
\<close>

lemma reply_when_send_message_raises:
  "new_calls router_init
      (send_response_via_tcp cfg_llm env_send_raises (py ''hi there'') (JStr (py ''!c3d4''))
         True True router_init)
     = [Tcp_send_message (py ''hi there'') (Some (JStr (py ''!c3d4''))), Router_sleep 2,
        Tcp_send_message (py ''hi there'') (Some (JStr (py ''!c3d4''))), Router_sleep 2,
        Tcp_send_message (py ''hi there'') (Some (JStr (py ''!c3d4''))),
        Publish_to_llm_response_channel
          (response_data cfg_llm env_send_raises (py ''hi there'') (JStr (py ''!c3d4'')))]"
  by (simp add: send_response_via_tcp_def send_response_loop.simps attempt_body_def
      handle_exception_def send_response_via_mqtt_llm_channel_def
      cfg_llm_def env_send_raises_def router_init_def called_def new_calls_def Let_def)

text \<open>
  A \<open>send_to_channel\<close> that does not return (the outbound link under a connection that
  drops at every send, see \<open>send_to_channel_unbounded\<close>) is the bridge's last call.
\<close>

lemma reply_when_send_to_channel_hangs:
  "new_calls router_init
      (send_response_via_tcp cfg_llm env_channel_hangs (py ''hi there'') (JStr (py ''!c3d4''))
         True True router_init)
     = [Tcp_send_message (py ''hi there'') (Some (JStr (py ''!c3d4''))),
        Tcp_send_to_channel (py ''hi there'') (py ''llmres'')]"
proof -
  have name: "response_channel_name (py ''msh/US/2/json/llmres/'') = py ''llmres''"
    by (simp add: response_channel_name_def py_def Let_def)
  have ne: "py ''msh/US/2/json/llmres/'' \<noteq> []"
    by (simp add: py_def)
  show ?thesis
    by (simp add: send_response_via_tcp_def send_response_loop.simps attempt_body_def name ne
        cfg_llm_def env_channel_hangs_def router_init_def called_def new_calls_def Let_def)
qed

end
